theory Spec2Isabelle
  imports Main "HOL-Library.Word"
begin

section \<open>Voice session controller: the recorder components and the error hook\<close>

text \<open>
  The development embeds the voice recorder of the repository: the error hook
  \<^verbatim>\<open>useErrorHandler\<close> (\<^verbatim>\<open>src/hooks/error.hook.ts\<close>), the recorder component in its
  two revisions (the HTTP revision with the continuation window, and the WebSocket
  revision \<^verbatim>\<open>src/components/VoiceRecorder.tsx\<close>) and the message handler of
  \<^verbatim>\<open>WebSocketService.tsx\<close>.

  A React component is a state that its callbacks update. Each callback of the source is
  a function from the component state to the component state; a \<^verbatim>\<open>setState\<close> updater is
  applied where the source calls it, in call order. What the browser contributes (timers,
  the media recorder, the audio element, the network) is part of the state as well: the
  pending timers with their due times, the recorder's state, the queued stop event, and
  a log of the effects that leave the component (requests, sends, playback, callbacks).
\<close>

subsection \<open>Browser timers\<close>

text \<open>
  A timer is known by the id that \<^verbatim>\<open>setTimeout\<close> or \<^verbatim>\<open>setInterval\<close> returned; ids are
  positive, so a ref holding one is truthy. The callback of a timer is one of the
  closures the source passes; \<open>timer_kind\<close> names them. Every call of
  \<^verbatim>\<open>startContinuousMode\<close> makes its own \<^verbatim>\<open>updateProgress\<close>, with its own \<^verbatim>\<open>progress\<close>
  variable: \<open>ProgressInterval w\<close> is the closure of the call number \<open>w\<close>.
\<close>

datatype timer_kind =
    ErrorAutoHide          \<comment> \<open>\<^verbatim>\<open>setTimeout(clearError, autoHideDuration)\<close>\<close>
  | RecordingCeiling       \<comment> \<open>\<^verbatim>\<open>setTimeout(() => stopRecording(), 5000)\<close>\<close>
  | ProgressInterval nat   \<comment> \<open>\<^verbatim>\<open>setInterval(updateProgress, 150)\<close>\<close>
  | ContinuationTimeout    \<comment> \<open>\<^verbatim>\<open>setTimeout(() => {...; endContinuousMode()}, 15000)\<close>\<close>
  | ProcessingInterval     \<comment> \<open>WebSocket revision: the progress display while processing\<close>

datatype timer = Timer (tid: nat) (callback: timer_kind) (due: nat) (period: "nat option")

type_synonym bytes = "8 word list"

datatype Blob = Blob (blob_bytes: bytes) (blob_type: string)

definition blob_size :: "Blob \<Rightarrow> nat" where
  "blob_size b = length (blob_bytes b)"

text \<open>\<^verbatim>\<open>new Blob(parts, { type })\<close>: the parts one after the other.\<close>

definition new_Blob :: "Blob list \<Rightarrow> string \<Rightarrow> Blob" where
  "new_Blob parts ty = Blob (concat (map blob_bytes parts)) ty"

datatype Error = Error (message: string)

text \<open>What leaves the component.\<close>

datatype effect =
    Fetch Blob             \<comment> \<open>\<^verbatim>\<open>fetch(endpoint, { method: 'POST', body })\<close>\<close>
  | WsSend Blob            \<comment> \<open>\<^verbatim>\<open>sendMessage(audioData)\<close>\<close>
  | WsOnError Error        \<comment> \<open>the service's \<^verbatim>\<open>onError\<close> prop\<close>
  | Play Blob              \<comment> \<open>\<^verbatim>\<open>audioPlayer.play()\<close> on the given source\<close>
  | OnComplete             \<comment> \<open>the \<^verbatim>\<open>onComplete\<close> prop\<close>
  | OnErrorClear           \<comment> \<open>the \<^verbatim>\<open>onErrorClear\<close> option of the hook\<close>

record platform =
  clock :: nat
  nextTimerId :: nat
  timers :: "timer list"
  log :: "effect list"

text \<open>
  The delay of a timer is converted to a signed 32-bit integer (the value wraps modulo
  \<open>2 ^ 32\<close>), and a negative delay counts as 0: a delay of \<open>2 ^ 31\<close> ms or more does
  not wait that long.
\<close>

definition ToInt32 :: "int \<Rightarrow> int" where
  "ToInt32 n = (n + 2147483648) mod 4294967296 - 2147483648"

definition timer_delay :: "int \<Rightarrow> nat" where
  "timer_delay ms = nat (max 0 (ToInt32 ms))"

definition setTimeout :: "timer_kind \<Rightarrow> int \<Rightarrow> 'a platform_scheme \<Rightarrow> 'a platform_scheme" where
  "setTimeout cb ms s =
     s\<lparr>timers := timers s @ [Timer (nextTimerId s) cb (clock s + timer_delay ms) None],
       nextTimerId := nextTimerId s + 1\<rparr>"

definition setInterval :: "timer_kind \<Rightarrow> int \<Rightarrow> 'a platform_scheme \<Rightarrow> 'a platform_scheme" where
  "setInterval cb ms s =
     s\<lparr>timers := timers s @
         [Timer (nextTimerId s) cb (clock s + timer_delay ms) (Some (timer_delay ms))],
       nextTimerId := nextTimerId s + 1\<rparr>"

text \<open>\<^verbatim>\<open>clearTimeout(id)\<close> and \<^verbatim>\<open>clearInterval(id)\<close>; an id that is not pending is ignored.\<close>

definition clearTimer :: "nat \<Rightarrow> 'a platform_scheme \<Rightarrow> 'a platform_scheme" where
  "clearTimer i s = s\<lparr>timers := filter (\<lambda>t. tid t \<noteq> i) (timers s)\<rparr>"

text \<open>\<^verbatim>\<open>if (ref.current) clearTimeout(ref.current)\<close>.\<close>

definition clearRef :: "nat option \<Rightarrow> 'a platform_scheme \<Rightarrow> 'a platform_scheme" where
  "clearRef r s = (case r of None \<Rightarrow> s | Some i \<Rightarrow> if i \<noteq> 0 then clearTimer i s else s)"

definition emit :: "effect \<Rightarrow> 'a platform_scheme \<Rightarrow> 'a platform_scheme" where
  "emit e s = s\<lparr>log := log s @ [e]\<rparr>"

definition pending :: "nat \<Rightarrow> 'a platform_scheme \<Rightarrow> timer option" where
  "pending i s = find (\<lambda>t. tid t = i) (timers s)"

text \<open>
  A timer runs when it is pending and no pending timer is due earlier; two timers due at
  the same instant run in either order. Time does not pass a due timer.
\<close>

definition earliest :: "timer \<Rightarrow> 'a platform_scheme \<Rightarrow> bool" where
  "earliest t s = list_all (\<lambda>u. due t \<le> due u) (timers s)"

definition can_elapse :: "nat \<Rightarrow> 'a platform_scheme \<Rightarrow> bool" where
  "can_elapse d s = list_all (\<lambda>u. clock s + d \<le> due u) (timers s)"

text \<open>
  Taking a timer off the queue at its due time: a timeout is removed, an interval is
  armed again one period later.
\<close>

definition dequeue :: "timer \<Rightarrow> 'a platform_scheme \<Rightarrow> 'a platform_scheme" where
  "dequeue t s =
     s\<lparr>clock := max (clock s) (due t),
       timers := (case period t of
                    None \<Rightarrow> filter (\<lambda>u. tid u \<noteq> tid t) (timers s)
                  | Some p \<Rightarrow> map (\<lambda>u. if tid u = tid t
                                        then Timer (tid u) (callback u) (due u + p) (period u)
                                        else u) (timers s))\<rparr>"

subsection \<open>The error hook\<close>

datatype ErrorType = recording | processing | playback

record ErrorState =
  type :: "ErrorType option"
  message :: "string option"

record ErrorDisplayProps =
  onErrorClear :: bool           \<comment> \<open>whether the optional callback was passed\<close>
  autoHideDuration :: int

definition default_props :: ErrorDisplayProps where
  "default_props = \<lparr>onErrorClear = False, autoHideDuration = 5000\<rparr>"

record error_handler = platform +
  error :: ErrorState

definition no_error :: ErrorState where
  "no_error = \<lparr>type = None, message = None\<rparr>"

definition formatErrorMessage :: "Error \<Rightarrow> string option \<Rightarrow> string" where
  "formatErrorMessage e prefix =
     (case prefix of
        None \<Rightarrow> Error.message e
      | Some p \<Rightarrow> (if p \<noteq> [] then p @ '': '' else []) @ Error.message e)"

definition clearError :: "ErrorDisplayProps \<Rightarrow> 'a error_handler_scheme \<Rightarrow> 'a error_handler_scheme" where
  "clearError props s =
     (let s1 = s\<lparr>error := no_error\<rparr>
      in if onErrorClear props then emit OnErrorClear s1 else s1)"

definition setErrorWithType ::
  "ErrorDisplayProps \<Rightarrow> ErrorType \<Rightarrow> string \<Rightarrow> 'a error_handler_scheme \<Rightarrow> 'a error_handler_scheme" where
  "setErrorWithType props ty msg s =
     (let s1 = s\<lparr>error := \<lparr>type = Some ty, message = Some msg\<rparr>\<rparr>
      in if autoHideDuration props > 0
         then setTimeout ErrorAutoHide (autoHideDuration props) s1
         else s1)"

definition handleError ::
  "ErrorDisplayProps \<Rightarrow> Error \<Rightarrow> ErrorType \<Rightarrow> string option \<Rightarrow> 'a error_handler_scheme \<Rightarrow> 'a error_handler_scheme" where
  "handleError props e ty context s = setErrorWithType props ty (formatErrorMessage e context) s"

definition handleRecordingError ::
  "ErrorDisplayProps \<Rightarrow> Error \<Rightarrow> string option \<Rightarrow> 'a error_handler_scheme \<Rightarrow> 'a error_handler_scheme" where
  "handleRecordingError props e context s = handleError props e recording context s"

definition handleProcessingError ::
  "ErrorDisplayProps \<Rightarrow> Error \<Rightarrow> string option \<Rightarrow> 'a error_handler_scheme \<Rightarrow> 'a error_handler_scheme" where
  "handleProcessingError props e context s = handleError props e processing context s"

definition handlePlaybackError ::
  "ErrorDisplayProps \<Rightarrow> Error \<Rightarrow> string option \<Rightarrow> 'a error_handler_scheme \<Rightarrow> 'a error_handler_scheme" where
  "handlePlaybackError props e context s = handleError props e playback context s"

text \<open>
  The hook on its own, driven by its callers and by the clock: a fault is reported, the
  banner is dismissed, a pending timer runs, or time passes.
\<close>

datatype hook_event =
    Fault ErrorType string
  | Dismiss
  | TimerDue nat
  | Wait nat

definition hook_init :: error_handler where
  "hook_init = \<lparr>clock = 0, nextTimerId = 1, timers = [], log = [], error = no_error\<rparr>"

definition hook_step :: "ErrorDisplayProps \<Rightarrow> hook_event \<Rightarrow> error_handler \<Rightarrow> error_handler option" where
  "hook_step props e s =
     (case e of
        Fault ty msg \<Rightarrow> Some (setErrorWithType props ty msg s)
      | Dismiss \<Rightarrow> Some (clearError props s)
      | TimerDue i \<Rightarrow>
          (case pending i s of
             None \<Rightarrow> None
           | Some t \<Rightarrow> if earliest t s then Some (clearError props (dequeue t s)) else None)
      | Wait d \<Rightarrow> if can_elapse d s then Some (s\<lparr>clock := clock s + d\<rparr>) else None)"

fun hook_run :: "ErrorDisplayProps \<Rightarrow> hook_event list \<Rightarrow> error_handler \<Rightarrow> error_handler option" where
  "hook_run props [] s = Some s"
| "hook_run props (e # es) s =
     (case hook_step props e s of None \<Rightarrow> None | Some s' \<Rightarrow> hook_run props es s')"


subsection \<open>The recorder: what both revisions share\<close>

text \<open>
  The message literals of the source are Chinese; they are written here in English, one
  constant per literal.
\<close>

definition E_no_audio :: Error where
  "E_no_audio = Error ''No valid audio data detected''"

definition E_invalid_response :: Error where
  "E_invalid_response = Error ''The server returned invalid audio data''"

definition E_device_not_ready :: Error where
  "E_device_not_ready = Error ''Recording device not ready''"

definition E_invalid_state :: Error where
  "E_invalid_state = Error ''InvalidStateError''"

definition E_ws_not_ready :: Error where
  "E_ws_not_ready = Error ''WebSocket service not ready''"

definition E_ws_not_connected :: Error where
  "E_ws_not_connected = Error ''WebSocket not connected''"

definition E_type_error :: Error where
  "E_type_error = Error ''TypeError: cannot read properties of undefined''"

datatype recorder_state = Inactive | Recording | Paused

datatype track = Live | Ended

text \<open>
  \<open>isRecording\<close>, \<open>isProcessing\<close>, \<open>isPlaying\<close> and \<open>timeoutProgress\<close> are the fields of
  \<^verbatim>\<open>RecordingState\<close>; the others are the refs. \<open>mediaRecorder\<close> holds the recorder's
  \<^verbatim>\<open>state\<close> (\<open>None\<close> is \<^verbatim>\<open>null\<close>) and \<open>audioStream\<close> the tracks of the stream.
  \<open>stopsQueued\<close> counts the \<^verbatim>\<open>stop\<close> events that recorders of the component have
  queued and that are still to be delivered to \<^verbatim>\<open>onstop\<close>; \<open>strays\<close> counts the recorders
  that were still recording when \<^verbatim>\<open>initializeRecording\<close> put a new recorder into the ref.
\<close>

record recorder = error_handler +
  isRecording :: bool
  isProcessing :: bool
  isPlaying :: bool
  timeoutProgress :: int
  mediaRecorder :: "recorder_state option"
  stopsQueued :: nat
  strays :: nat
  audioStream :: "track list option"
  audioChunks :: "Blob list"
  timeoutRef :: "nat option"
  progressIntervalRef :: "nat option"

definition stopRecording :: "'a recorder_scheme \<Rightarrow> 'a recorder_scheme" where
  "stopRecording s =
     (case mediaRecorder s of
        None \<Rightarrow> s
      | Some st \<Rightarrow>
          (let s1 = (if st = Recording
                     then s\<lparr>mediaRecorder := Some Inactive, stopsQueued := stopsQueued s + 1\<rparr>
                     else s)
           in s1\<lparr>isRecording := False\<rparr>))"

text \<open>
  \<open>ceiling\<close> is the recording ceiling of the revision (5000 or 30000 ms). \<^verbatim>\<open>start()\<close>
  throws when the recorder is not inactive, or when the platform refuses
  (\<open>refused\<close>); the \<^verbatim>\<open>catch\<close> reports a recording error.
\<close>

definition startRecording :: "int \<Rightarrow> Error option \<Rightarrow> 'a recorder_scheme \<Rightarrow> 'a recorder_scheme" where
  "startRecording ceiling refused s =
     (case mediaRecorder s of
        None \<Rightarrow> handleRecordingError default_props E_device_not_ready None s
      | Some st \<Rightarrow>
          (let s1 = s\<lparr>audioChunks := []\<rparr>;
               thrown = (if st \<noteq> Inactive then Some E_invalid_state else refused)
           in case thrown of
                Some e \<Rightarrow> handleRecordingError default_props e (Some ''Failed to start recording'') s1
              | None \<Rightarrow>
                  (let s2 = s1\<lparr>mediaRecorder := Some Recording, isRecording := True\<rparr>;
                       s3 = clearError default_props s2
                   in (setTimeout RecordingCeiling ceiling s3)\<lparr>timeoutRef := Some (nextTimerId s3)\<rparr>)))"

definition ondataavailable :: "Blob \<Rightarrow> 'a recorder_scheme \<Rightarrow> 'a recorder_scheme" where
  "ondataavailable d s =
     (if blob_size d > 0 then s\<lparr>audioChunks := audioChunks s @ [d]\<rparr> else s)"

definition onerror :: "Error \<Rightarrow> 'a recorder_scheme \<Rightarrow> 'a recorder_scheme" where
  "onerror e s = handleRecordingError default_props e (Some ''Recording device error'') s"

text \<open>
  \<^verbatim>\<open>initializeRecording\<close> from the point where \<^verbatim>\<open>getUserMedia\<close> settles: \<open>Inl\<close> is its
  rejection, \<open>Inr\<close> the tracks of the stream it resolved with. The new recorder replaces
  the one in the ref; a recorder that is replaced while it records goes on recording.
\<close>

definition initializeRecording ::
  "int \<Rightarrow> Error + track list \<Rightarrow> Error option \<Rightarrow> 'a recorder_scheme \<Rightarrow> 'a recorder_scheme" where
  "initializeRecording ceiling media refused s =
     (case media of
        Inl e \<Rightarrow> handleRecordingError default_props e (Some ''Failed to initialise the recording device'') s
      | Inr tracks \<Rightarrow>
          startRecording ceiling refused
            (s\<lparr>audioStream := Some tracks, mediaRecorder := Some Inactive,
               strays := strays s + (if mediaRecorder s = Some Recording then 1 else 0)\<rparr>))"

definition stop_tracks :: "'a recorder_scheme \<Rightarrow> 'a recorder_scheme" where
  "stop_tracks s = s\<lparr>audioStream := map_option (map (\<lambda>t. Ended)) (audioStream s)\<rparr>"

text \<open>
  The browser stops a recorder on its own when the recorder fails or when every track of
  its stream has ended: the recorder becomes inactive and its \<^verbatim>\<open>stop\<close> event is queued,
  without any call of \<^verbatim>\<open>stopRecording\<close>.
\<close>

definition browser_stop :: "'a recorder_scheme \<Rightarrow> 'a recorder_scheme" where
  "browser_stop s =
     (if mediaRecorder s = Some Recording
      then s\<lparr>mediaRecorder := Some Inactive, stopsQueued := stopsQueued s + 1\<rparr>
      else s)"

text \<open>Delivering a sequence of \<^verbatim>\<open>dataavailable\<close> events.\<close>

fun deliver :: "Blob list \<Rightarrow> 'a recorder_scheme \<Rightarrow> 'a recorder_scheme" where
  "deliver [] s = s"
| "deliver (d # ds) s = deliver ds (ondataavailable d s)"

subsection \<open>The HTTP revision, with the continuation window\<close>

text \<open>
  \<^verbatim>\<open>processRecording\<close> is asynchronous: it runs up to an \<^verbatim>\<open>await\<close>, and goes on when the
  awaited promise settles. \<open>awaiting\<close> records the point that \<^verbatim>\<open>processRecording\<close> reached
  last; while one call is in flight, that is where the call is suspended. The promises
  themselves are counted: \<open>fetchesPending\<close> and \<open>playsPending\<close> are the requests and the
  calls of \<^verbatim>\<open>play()\<close> that have not settled, \<open>mediaRequests\<close> the calls of
  \<^verbatim>\<open>getUserMedia\<close> that have not.
\<close>

datatype continuation = Idle | AwaitFetch | AwaitPlay | AwaitEnded | Finished

datatype fetch_result =
    NetworkError Error
  | Response bool string "Error + Blob"   \<comment> \<open>\<^verbatim>\<open>ok\<close>, \<^verbatim>\<open>statusText\<close>, the body or the failure to read it\<close>

text \<open>
  \<open>progress w\<close> is the \<^verbatim>\<open>progress\<close> variable of the call number \<open>w\<close> of
  \<^verbatim>\<open>startContinuousMode\<close>, and \<open>windows\<close> the number of calls so far. \<open>isActive\<close> is the prop
  as the effect saw it last (\<open>None\<close> before the first run of the effect), and
  \<open>activations\<close> counts how often the effect has found it true.
\<close>

record http_recorder = recorder +
  continuousMode :: bool
  playerSrc :: "Blob option"
  playerPlaying :: bool
  onendedSet :: bool
  continuousModeTimeoutRef :: "nat option"
  progress :: "nat \<Rightarrow> int"
  windows :: nat
  awaiting :: continuation
  fetchesPending :: nat
  playsPending :: nat
  isActive :: "bool option"
  mediaRequests :: nat
  activations :: nat

definition http_init :: http_recorder where
  "http_init =
     \<lparr>clock = 0, nextTimerId = 1, timers = [], log = [], error = no_error,
      isRecording = False, isProcessing = False, isPlaying = False, timeoutProgress = 0,
      mediaRecorder = None, stopsQueued = 0, strays = 0, audioStream = None, audioChunks = [],
      timeoutRef = None, progressIntervalRef = None,
      continuousMode = False, playerSrc = None, playerPlaying = False, onendedSet = False,
      continuousModeTimeoutRef = None, progress = (\<lambda>w. 0), windows = 0, awaiting = Idle,
      fetchesPending = 0, playsPending = 0,
      isActive = None, mediaRequests = 0, activations = 0\<rparr>"

definition endContinuousMode :: "http_recorder \<Rightarrow> http_recorder" where
  "endContinuousMode s = emit OnComplete (s\<lparr>continuousMode := False, timeoutProgress := 0\<rparr>)"

text \<open>The \<^verbatim>\<open>catch\<close> block of \<^verbatim>\<open>processRecording\<close>.\<close>

definition processing_failed :: "Error \<Rightarrow> http_recorder \<Rightarrow> http_recorder" where
  "processing_failed e s =
     handleProcessingError default_props e None (s\<lparr>isProcessing := False, awaiting := Finished\<rparr>)"

definition processRecording :: "http_recorder \<Rightarrow> http_recorder" where
  "processRecording s =
     (let s1 = clearError default_props (s\<lparr>isProcessing := True\<rparr>);
          audioBlob = new_Blob (audioChunks s1) ''audio/wav''
      in if blob_size audioBlob = 0 then processing_failed E_no_audio s1
         else emit (Fetch audioBlob)
                (s1\<lparr>awaiting := AwaitFetch, fetchesPending := fetchesPending s1 + 1\<rparr>))"

text \<open>
  The response has arrived. Giving the audio element a new source ends what it was
  playing; \<^verbatim>\<open>play()\<close> is called and awaited.
\<close>

definition fetch_settled :: "fetch_result \<Rightarrow> http_recorder \<Rightarrow> http_recorder" where
  "fetch_settled r s =
     (case r of
        NetworkError e \<Rightarrow> processing_failed e s
      | Response ok statusText body \<Rightarrow>
          if \<not> ok then processing_failed (Error (''Request failed: '' @ statusText)) s
          else (case body of
                  Inl e \<Rightarrow> processing_failed e s
                | Inr responseBlob \<Rightarrow>
                    if blob_size responseBlob = 0 then processing_failed E_invalid_response s
                    else emit (Play responseBlob)
                           (s\<lparr>playerSrc := Some responseBlob, playerPlaying := False,
                              isProcessing := False, isPlaying := True,
                              awaiting := AwaitPlay, playsPending := playsPending s + 1\<rparr>)))"

definition play_settled :: "Error option \<Rightarrow> http_recorder \<Rightarrow> http_recorder" where
  "play_settled r s =
     (case r of
        Some playError \<Rightarrow> handlePlaybackError default_props playError None (s\<lparr>awaiting := Finished\<rparr>)
      | None \<Rightarrow> s\<lparr>playerPlaying := True, onendedSet := True, awaiting := AwaitEnded\<rparr>)"

definition startContinuousMode :: "http_recorder \<Rightarrow> http_recorder" where
  "startContinuousMode s =
     (let w = windows s;
          s1 = s\<lparr>progress := (progress s)(w := 100), windows := w + 1\<rparr>;
          s2 = (setInterval (ProgressInterval w) 150 s1)\<lparr>progressIntervalRef := Some (nextTimerId s1)\<rparr>
      in (setTimeout ContinuationTimeout 15000 s2)\<lparr>continuousModeTimeoutRef := Some (nextTimerId s2)\<rparr>)"

definition updateProgress :: "nat \<Rightarrow> http_recorder \<Rightarrow> http_recorder" where
  "updateProgress w s =
     (let s1 = s\<lparr>progress := (progress s)(w := progress s w - 1)\<rparr>;
          s2 = s1\<lparr>timeoutProgress := progress s1 w\<rparr>
      in if progress s2 w \<le> 0
         then endContinuousMode (clearRef (progressIntervalRef s2) s2)
         else s2)"

definition continuation_expired :: "http_recorder \<Rightarrow> http_recorder" where
  "continuation_expired s = endContinuousMode (clearRef (progressIntervalRef s) s)"

definition audio_onended :: "http_recorder \<Rightarrow> http_recorder" where
  "audio_onended s =
     startContinuousMode
       (s\<lparr>playerPlaying := False, awaiting := Finished,
          isPlaying := False, continuousMode := True, timeoutProgress := 100\<rparr>)"

definition cleanup :: "http_recorder \<Rightarrow> http_recorder" where
  "cleanup s =
     (let s1 = stop_tracks s;
          s2 = clearRef (timeoutRef s1) s1;
          s3 = clearRef (continuousModeTimeoutRef s2) s2;
          s4 = clearRef (progressIntervalRef s3) s3
      in clearError default_props s4)"

text \<open>
  The effect on \<^verbatim>\<open>isActive\<close>: activation requests the microphone (the promise settles
  later), deactivation stops and cleans up.
\<close>

definition activeEffect :: "bool \<Rightarrow> http_recorder \<Rightarrow> http_recorder" where
  "activeEffect b s =
     (if b then s\<lparr>mediaRequests := mediaRequests s + 1\<rparr> else cleanup (stopRecording s))"

definition run_callback :: "timer_kind \<Rightarrow> http_recorder \<Rightarrow> http_recorder" where
  "run_callback k s =
     (case k of
        ErrorAutoHide \<Rightarrow> clearError default_props s
      | RecordingCeiling \<Rightarrow> stopRecording s
      | ProgressInterval w \<Rightarrow> updateProgress w s
      | ContinuationTimeout \<Rightarrow> continuation_expired s
      | ProcessingInterval \<Rightarrow> s)"

text \<open>
  The events are what the browser and the parent deliver to the component. An event is
  delivered only when it can occur: the effect runs when \<^verbatim>\<open>isActive\<close> changes, a promise
  settles when it is pending, a recorder's \<^verbatim>\<open>stop\<close> event is delivered when one is
  queued, the audio element ends when it plays, and a timer runs when it is due. The
  browser queues a \<^verbatim>\<open>stop\<close> event when \<^verbatim>\<open>stop()\<close> is called, and also on its own:
  \<open>RecorderError\<close> is a failure of the recorder in the ref (it becomes inactive, \<^verbatim>\<open>onerror\<close>
  runs, the \<^verbatim>\<open>stop\<close> event follows), \<open>TracksEnded\<close> the end of every track of the stream
  in the ref, \<open>StrayStopped\<close> either of them for a recorder that is no longer in the ref.
  The parent may deactivate the recorder and activate it again.
\<close>

datatype event =
    SetActive bool
  | UserMedia "Error + track list" "Error option"
  | DataAvailable Blob
  | RecorderError Error
  | TracksEnded
  | StrayStopped "Error option"
  | RecorderStop
  | FetchSettled fetch_result
  | PlaySettled "Error option"
  | AudioEnded
  | TimerFires nat
  | Elapse nat
  | CloseBanner

definition step :: "event \<Rightarrow> http_recorder \<Rightarrow> http_recorder option" where
  "step e s =
     (case e of
        SetActive b \<Rightarrow>
          if isActive s = Some b then None
          else Some (activeEffect b
                 (s\<lparr>isActive := Some b, activations := activations s + (if b then 1 else 0)\<rparr>))
      | UserMedia media refused \<Rightarrow>
          if 0 < mediaRequests s
          then Some (initializeRecording 5000 media refused
                 (s\<lparr>mediaRequests := mediaRequests s - 1\<rparr>))
          else None
      | DataAvailable d \<Rightarrow> if mediaRecorder s \<noteq> None then Some (ondataavailable d s) else None
      | RecorderError e \<Rightarrow>
          if mediaRecorder s = Some Recording then Some (onerror e (browser_stop s)) else None
      | TracksEnded \<Rightarrow>
          if audioStream s \<noteq> None then Some (browser_stop (stop_tracks s)) else None
      | StrayStopped failure \<Rightarrow>
          if 0 < strays s
          then (let s1 = s\<lparr>strays := strays s - 1, stopsQueued := stopsQueued s + 1\<rparr>
                in Some (case failure of None \<Rightarrow> s1 | Some e \<Rightarrow> onerror e s1))
          else None
      | RecorderStop \<Rightarrow>
          if 0 < stopsQueued s
          then Some (processRecording (s\<lparr>stopsQueued := stopsQueued s - 1\<rparr>))
          else None
      | FetchSettled r \<Rightarrow>
          if 0 < fetchesPending s
          then Some (fetch_settled r (s\<lparr>fetchesPending := fetchesPending s - 1\<rparr>))
          else None
      | PlaySettled r \<Rightarrow>
          if 0 < playsPending s
          then Some (play_settled r (s\<lparr>playsPending := playsPending s - 1\<rparr>))
          else None
      | AudioEnded \<Rightarrow>
          if playerPlaying s
          then Some (if onendedSet s then audio_onended s else s\<lparr>playerPlaying := False\<rparr>)
          else None
      | TimerFires i \<Rightarrow>
          (case pending i s of
             None \<Rightarrow> None
           | Some t \<Rightarrow>
               if earliest t s then Some (run_callback (callback t) (dequeue t s)) else None)
      | Elapse d \<Rightarrow> if can_elapse d s then Some (s\<lparr>clock := clock s + d\<rparr>) else None
      | CloseBanner \<Rightarrow> Some (clearError default_props s))"

fun run :: "event list \<Rightarrow> http_recorder \<Rightarrow> http_recorder option" where
  "run [] s = Some s"
| "run (e # es) s = (case step e s of None \<Rightarrow> None | Some s' \<Rightarrow> run es s')"

subsection \<open>The WebSocket revision\<close>

datatype ready_state = CONNECTING | OPEN | CLOSING | CLOSED

text \<open>
  \<open>wsRef\<close> is the prop: \<open>None\<close> when the parent did not pass it (reading \<^verbatim>\<open>wsRef.current\<close>
  then throws a \<^verbatim>\<open>TypeError\<close>), \<open>Some False\<close> when \<^verbatim>\<open>wsRef.current\<close> is \<^verbatim>\<open>null\<close>.
  \<open>readyState\<close> is the state of the socket of the service that \<open>wsRef\<close> reaches.
\<close>

record ws_recorder = recorder +
  wsRef :: "bool option"
  readyState :: ready_state
  processingProgress :: int

definition sendAudioStream :: "Blob \<Rightarrow> ws_recorder \<Rightarrow> ws_recorder" where
  "sendAudioStream audioData s =
     (if readyState s = OPEN then emit (WsSend audioData) s
      else emit (WsOnError E_ws_not_connected) s)"

definition processing_failed_ws :: "Error \<Rightarrow> ws_recorder \<Rightarrow> ws_recorder" where
  "processing_failed_ws e s =
     handleProcessingError default_props e None (s\<lparr>isProcessing := False\<rparr>)"

definition processRecording_ws :: "ws_recorder \<Rightarrow> ws_recorder" where
  "processRecording_ws s =
     (let s1 = clearError default_props (s\<lparr>isProcessing := True\<rparr>);
          audioBlob = new_Blob (audioChunks s1) ''audio/wav''
      in if blob_size audioBlob = 0 then processing_failed_ws E_no_audio s1
         else (case wsRef s1 of
                 None \<Rightarrow> processing_failed_ws E_type_error s1
               | Some False \<Rightarrow> processing_failed_ws E_ws_not_ready s1
               | Some True \<Rightarrow>
                   (let s2 = sendAudioStream audioBlob s1;
                        s3 = s2\<lparr>processingProgress := 0\<rparr>
                    in (setInterval ProcessingInterval 100 s3)
                         \<lparr>progressIntervalRef := Some (nextTimerId s3)\<rparr>)))"

definition processingTick :: "ws_recorder \<Rightarrow> ws_recorder" where
  "processingTick s =
     (let s1 = s\<lparr>processingProgress := min (processingProgress s + 1) 90\<rparr>
      in s1\<lparr>timeoutProgress := processingProgress s1\<rparr>)"

definition cleanup_ws :: "ws_recorder \<Rightarrow> ws_recorder" where
  "cleanup_ws s =
     (let s1 = stop_tracks s;
          s2 = clearRef (timeoutRef s1) s1;
          s3 = clearRef (progressIntervalRef s2) s2
      in clearError default_props s3)"

subsection \<open>The WebSocket service: the effect on \<^verbatim>\<open>lastMessage\<close>\<close>

record WebSocketService = platform +
  audioPlayerSrc :: "Blob option"

text \<open>
  \<open>lastMessage\<close> is \<open>None\<close> while no message has arrived, otherwise the data of the last
  message; \<open>rejected\<close> is the rejection of \<^verbatim>\<open>play()\<close>, if it rejects.
\<close>

definition lastMessage_effect ::
  "bytes option \<Rightarrow> Error option \<Rightarrow> WebSocketService \<Rightarrow> WebSocketService" where
  "lastMessage_effect lastMessage rejected s =
     (case lastMessage of
        None \<Rightarrow> s
      | Some data \<Rightarrow>
          (let audioBlob = new_Blob [Blob data []] ''audio/wav'';
               s1 = emit (Play audioBlob) (s\<lparr>audioPlayerSrc := Some audioBlob\<rparr>)
           in case rejected of None \<Rightarrow> s1 | Some e \<Rightarrow> emit (WsOnError e) s1))"

definition ws_init :: ws_recorder where
  "ws_init =
     \<lparr>clock = 0, nextTimerId = 1, timers = [], log = [], error = no_error,
      isRecording = False, isProcessing = False, isPlaying = False, timeoutProgress = 0,
      mediaRecorder = None, stopsQueued = 0, strays = 0, audioStream = None, audioChunks = [],
      timeoutRef = None, progressIntervalRef = None,
      wsRef = Some True, readyState = OPEN, processingProgress = 0\<rparr>"

definition service_init :: WebSocketService where
  "service_init =
     \<lparr>clock = 0, nextTimerId = 1, timers = [], log = [], audioPlayerSrc = None\<rparr>"

section \<open>Properties\<close>

subsection \<open>Notions used by the statements\<close>

text \<open>A run of the hook in which no new fault is reported and nobody dismisses the banner.\<close>

definition quiet :: "hook_event \<Rightarrow> bool" where
  "quiet e = (case e of TimerDue _ \<Rightarrow> True | Wait _ \<Rightarrow> True | _ \<Rightarrow> False)"

text \<open>
  While an error is shown, a timer that will clear it by time \<open>T\<close> is pending and not
  yet overdue.
\<close>

definition hide_inv :: "nat \<Rightarrow> error_handler \<Rightarrow> bool" where
  "hide_inv T u =
     (list_ex (\<lambda>t. due t \<le> T \<and> clock u \<le> due t) (timers u) \<or> error u = no_error)"

text \<open>
  Until one of the timers \<open>ts\<close> has run, the error \<open>e\<close> is shown and the timers are all
  pending; once one has run, the clock has reached its due time.
\<close>

definition shown_inv :: "ErrorState \<Rightarrow> timer list \<Rightarrow> error_handler \<Rightarrow> bool" where
  "shown_inv e ts u =
     ((error u = e \<and> timers u = ts) \<or> list_ex (\<lambda>t. due t \<le> clock u) ts)"

text \<open>How many of the three phase flags are set.\<close>

definition active_flags :: "'a recorder_scheme \<Rightarrow> nat" where
  "active_flags s = of_bool (isRecording s) + of_bool (isProcessing s) + of_bool (isPlaying s)"

text \<open>
  The events of the pipeline that follows a stop of the recording: the last chunks, the
  recorder's stop event, and what \<^verbatim>\<open>processRecording\<close> awaits.
\<close>

definition downstream :: "event \<Rightarrow> bool" where
  "downstream e =
     (case e of
        DataAvailable _ \<Rightarrow> True | RecorderStop \<Rightarrow> True | FetchSettled _ \<Rightarrow> True
      | PlaySettled _ \<Rightarrow> True | AudioEnded \<Rightarrow> True | _ \<Rightarrow> False)"

text \<open>
  Two states agree when they differ at most in the clock, the pending timers, the tracks
  of the microphone stream, the \<^verbatim>\<open>isActive\<close> prop and, when \<open>e\<close> is false, the error
  shown.
\<close>

definition agree :: "bool \<Rightarrow> http_recorder \<Rightarrow> http_recorder \<Rightarrow> bool" where
  "agree e a b \<longleftrightarrow>
     (e \<longrightarrow> error a = error b) \<and>
     nextTimerId a = nextTimerId b \<and> log a = log b \<and>
     isRecording a = isRecording b \<and> isProcessing a = isProcessing b \<and>
     isPlaying a = isPlaying b \<and> timeoutProgress a = timeoutProgress b \<and>
     mediaRecorder a = mediaRecorder b \<and> stopsQueued a = stopsQueued b \<and>
     strays a = strays b \<and>
     audioChunks a = audioChunks b \<and> timeoutRef a = timeoutRef b \<and>
     progressIntervalRef a = progressIntervalRef b \<and>
     continuousMode a = continuousMode b \<and> playerSrc a = playerSrc b \<and>
     playerPlaying a = playerPlaying b \<and> onendedSet a = onendedSet b \<and>
     continuousModeTimeoutRef a = continuousModeTimeoutRef b \<and>
     progress a = progress b \<and> windows a = windows b \<and> awaiting a = awaiting b \<and>
     fetchesPending a = fetchesPending b \<and> playsPending a = playsPending b \<and>
     mediaRequests a = mediaRequests b \<and> activations a = activations b"

text \<open>What the pipeline shows: the flags, the buffer, the audio element, the effects, the error.\<close>

definition pipeline_view ::
  "http_recorder \<Rightarrow> (bool \<times> bool \<times> bool) \<times> (bool \<times> int) \<times> Blob list \<times> (Blob option \<times> bool) \<times> continuation \<times> effect list \<times> ErrorState" where
  "pipeline_view s =
     ((isRecording s, isProcessing s, isPlaying s), (continuousMode s, timeoutProgress s),
      audioChunks s, (playerSrc s, playerPlaying s), awaiting s, log s, error s)"

text \<open>
  The continuation window opened by the \<^verbatim>\<open>onended\<close> handler in state \<open>s\<close>, after \<open>k\<close> runs
  of the progress interval; and the window once it is closed, with \<open>n\<close> calls of
  \<^verbatim>\<open>onComplete\<close> made and the closure's \<open>progress\<close> at \<open>p\<close>.
\<close>

definition window :: "http_recorder \<Rightarrow> nat \<Rightarrow> http_recorder" where
  "window s k =
     (audio_onended s)
       \<lparr>clock := clock s + 150 * k,
        timers := [Timer (nextTimerId s) (ProgressInterval (windows s)) (clock s + 150 * (k + 1)) (Some 150),
                   Timer (nextTimerId s + 1) ContinuationTimeout (clock s + 15000) None],
        progress := (progress s)(windows s := 100 - int k),
        timeoutProgress := 100 - int k\<rparr>"

definition window_closed :: "http_recorder \<Rightarrow> nat \<Rightarrow> int \<Rightarrow> http_recorder" where
  "window_closed s n p =
     (audio_onended s)
       \<lparr>clock := clock s + 15000,
        timers := (if n = 1 then [Timer (nextTimerId s + 1) ContinuationTimeout (clock s + 15000) None] else []),
        progress := (progress s)(windows s := p),
        timeoutProgress := 0,
        continuousMode := False,
        log := log s @ replicate n OnComplete\<rparr>"

text \<open>
  A session up to the start of the playback: the wake signal activates the recorder, one
  chunk of three bytes is captured, the ceiling timer stops the recording, the request is
  answered with two bytes, and \<^verbatim>\<open>play()\<close> resolves.
\<close>

definition scenario :: "event list" where
  "scenario =
     [SetActive True, UserMedia (Inr [Live]) None, DataAvailable (Blob [1, 2, 3] []),
      TimerFires 1, RecorderStop,
      FetchSettled (Response True ''OK'' (Inr (Blob [4, 5] ''audio/wav''))), PlaySettled None]"

text \<open>
  A timer id is held when one of the refs that \<^verbatim>\<open>cleanup\<close> reads holds it (and it is
  truthy); the microphone is released when every track of the stream, if there is one,
  has ended.
\<close>

definition held :: "http_recorder \<Rightarrow> nat \<Rightarrow> bool" where
  "held s i \<longleftrightarrow>
     i \<noteq> 0 \<and> (timeoutRef s = Some i \<or> continuousModeTimeoutRef s = Some i \<or> progressIntervalRef s = Some i)"

definition held_ws :: "ws_recorder \<Rightarrow> nat \<Rightarrow> bool" where
  "held_ws s i \<longleftrightarrow> i \<noteq> 0 \<and> (timeoutRef s = Some i \<or> progressIntervalRef s = Some i)"

definition mic_released :: "'a recorder_scheme \<Rightarrow> bool" where
  "mic_released s = (case audioStream s of None \<Rightarrow> True | Some ts \<Rightarrow> list_all (\<lambda>t. t = Ended) ts)"

text \<open>
  A recorder that has been activated at most once has at most one call of
  \<^verbatim>\<open>getUserMedia\<close>, one recorder, one \<^verbatim>\<open>stop\<close> event and one call of \<^verbatim>\<open>processRecording\<close>;
  \<open>awaiting\<close> then is the point where that call is suspended, and the counters of the
  pending promises follow it.
\<close>

definition single_inv :: "http_recorder \<Rightarrow> bool" where
  "single_inv s \<longleftrightarrow>
     (activations s = 0 \<longrightarrow> mediaRequests s = 0 \<and> mediaRecorder s = None) \<and>
     mediaRequests s \<le> 1 \<and>
     (0 < mediaRequests s \<longrightarrow> mediaRecorder s = None) \<and>
     strays s = 0 \<and>
     (mediaRecorder s = None \<longrightarrow> stopsQueued s = 0 \<and> awaiting s = Idle) \<and>
     (mediaRecorder s = Some Recording \<longrightarrow> stopsQueued s = 0 \<and> awaiting s = Idle) \<and>
     stopsQueued s \<le> 1 \<and>
     (0 < stopsQueued s \<longrightarrow> awaiting s = Idle) \<and>
     fetchesPending s = (if awaiting s = AwaitFetch then 1 else 0) \<and>
     playsPending s = (if awaiting s = AwaitPlay then 1 else 0) \<and>
     (playerPlaying s \<longleftrightarrow> awaiting s = AwaitEnded) \<and>
     (playerPlaying s \<longrightarrow> onendedSet s) \<and>
     (awaiting s = Idle \<longrightarrow> \<not> isProcessing s \<and> \<not> isPlaying s) \<and>
     (isProcessing s \<longrightarrow> awaiting s = AwaitFetch) \<and>
     (awaiting s = AwaitFetch \<longrightarrow> \<not> isPlaying s) \<and>
     (awaiting s \<noteq> Finished \<longrightarrow> windows s = 0 \<and> \<not> continuousMode s) \<and>
     windows s \<le> 1"

text \<open>
  Every pending timer of the recorder is known to the ref that \<^verbatim>\<open>cleanup\<close> reads for
  its kind; before the recorder exists no ceiling timer is pending, and before the
  playback has ended no timer of the continuation window is.
\<close>

definition tracked_timer :: "http_recorder \<Rightarrow> timer \<Rightarrow> bool" where
  "tracked_timer s t \<longleftrightarrow>
     0 < tid t \<and> tid t < nextTimerId s \<and>
     (callback t = RecordingCeiling \<longrightarrow> timeoutRef s = Some (tid t)) \<and>
     (\<forall>w. callback t = ProgressInterval w \<longrightarrow> progressIntervalRef s = Some (tid t) \<and> w = 0) \<and>
     (callback t = ContinuationTimeout \<longrightarrow> continuousModeTimeoutRef s = Some (tid t)) \<and>
     callback t \<noteq> ProcessingInterval \<and>
     (period t \<noteq> None \<longrightarrow> callback t = ProgressInterval 0 \<and> period t = Some 150)"

definition tracked :: "http_recorder \<Rightarrow> bool" where
  "tracked s \<longleftrightarrow>
     0 < nextTimerId s \<and>
     list_all (tracked_timer s) (timers s) \<and>
     (mediaRecorder s = None \<longrightarrow> list_all (\<lambda>t. callback t \<noteq> RecordingCeiling) (timers s)) \<and>
     (windows s = 0 \<longrightarrow>
        list_all (\<lambda>t. callback t \<noteq> ProgressInterval 0 \<and> callback t \<noteq> ContinuationTimeout) (timers s)) \<and>
     (progressIntervalRef s \<noteq> None \<longrightarrow> progressIntervalRef s \<noteq> continuousModeTimeoutRef s)"

text \<open>No pending timer is overdue.\<close>

definition timely :: "'a platform_scheme \<Rightarrow> bool" where
  "timely s = list_all (\<lambda>t. clock s \<le> due t) (timers s)"

text \<open>
  While the window is open, the progress shown is the closure's \<open>progress\<close>, between 1
  and 100.
\<close>

definition counting :: "http_recorder \<Rightarrow> bool" where
  "counting s \<longleftrightarrow>
     (continuousMode s \<longrightarrow>
        progress s 0 = timeoutProgress s \<and> 1 \<le> progress s 0 \<and> progress s 0 \<le> 100)"

text \<open>
  The timers of a window that closes at time \<open>T\<close>: the timeout is due at \<open>T\<close>, and the
  interval is due \<open>progress - 1\<close> periods before \<open>T\<close>.
\<close>

definition window_timers :: "nat \<Rightarrow> http_recorder \<Rightarrow> bool" where
  "window_timers T s \<longleftrightarrow>
     windows s = 1 \<and>
     list_all (\<lambda>t. (callback t = ContinuationTimeout \<longrightarrow> due t = T) \<and>
                    (callback t = ProgressInterval 0 \<longrightarrow>
                       int (due t) + 150 * (progress s 0 - 1) = int T))
       (timers s)"

text \<open>The events by which the browser stops a recorder on its own.\<close>

definition unrequested :: "event \<Rightarrow> bool" where
  "unrequested e =
     (case e of RecorderError _ \<Rightarrow> True | TracksEnded \<Rightarrow> True | StrayStopped _ \<Rightarrow> True | _ \<Rightarrow> False)"

subsection \<open>The primitives as record updates\<close>

lemma clearRef_eq:
  "clearRef r s = s\<lparr>timers := filter (\<lambda>t. r \<noteq> Some (tid t) \<or> tid t = 0) (timers s)\<rparr>"
proof (cases r)
  case None
  then show ?thesis by (simp add: clearRef_def)
next
  case (Some i)
  have "filter (\<lambda>t. tid t \<noteq> i) (timers s) = filter (\<lambda>t. i \<noteq> tid t \<or> tid t = 0) (timers s)"
    if "i \<noteq> 0"
    using that by (intro filter_cong) auto
  with Some show ?thesis by (simp add: clearRef_def clearTimer_def)
qed

lemma clearError_default: "clearError default_props s = s\<lparr>error := no_error\<rparr>"
  by (simp add: clearError_def default_props_def)

lemma ToInt32_small: "0 \<le> n \<Longrightarrow> n < 2147483648 \<Longrightarrow> ToInt32 n = n"
  by (simp add: ToInt32_def)

lemma timer_delay_small: "0 \<le> n \<Longrightarrow> n < 2147483648 \<Longrightarrow> timer_delay n = nat n"
  by (simp add: timer_delay_def ToInt32_small)

lemma timer_delay_consts [simp]:
  "timer_delay 100 = 100" "timer_delay 150 = 150" "timer_delay 5000 = 5000"
  "timer_delay 15000 = 15000" "timer_delay 30000 = 30000"
  by (simp_all add: timer_delay_small)

lemma setErrorWithType_default:
  "setErrorWithType default_props ty msg s =
     s\<lparr>error := \<lparr>type = Some ty, message = Some msg\<rparr>,
       timers := timers s @ [Timer (nextTimerId s) ErrorAutoHide (clock s + 5000) None],
       nextTimerId := nextTimerId s + 1\<rparr>"
  by (simp add: setErrorWithType_def default_props_def setTimeout_def)

lemmas report_defs = handleRecordingError_def handleProcessingError_def handlePlaybackError_def
  handleError_def setErrorWithType_default

lemmas prim_defs = clearRef_eq clearError_default report_defs setTimeout_def setInterval_def
  emit_def Let_def

lemma guarded: "(if g then Some x else None) = Some y \<longleftrightarrow> g \<and> x = y"
  by simp

lemma step_TimerFires_eq:
  "step (TimerFires i) s = Some s' \<longleftrightarrow>
     (\<exists>t. pending i s = Some t \<and> earliest t s \<and> run_callback (callback t) (dequeue t s) = s')"
  by (cases "pending i s") (simp_all add: step_def guarded)

lemma run_append:
  "run (xs @ ys) s = (case run xs s of None \<Rightarrow> None | Some s' \<Rightarrow> run ys s')"
  by (induction xs arbitrary: s) (simp_all split: option.splits)

lemma guarded_not: "(if g then None else Some x) = Some y \<longleftrightarrow> \<not> g \<and> x = y"
  by simp

lemma step_SetActive_eq:
  "step (SetActive b) s = Some s' \<longleftrightarrow>
     isActive s \<noteq> Some b \<and>
     activeEffect b (s\<lparr>isActive := Some b, activations := activations s + (if b then 1 else 0)\<rparr>) = s'"
proof -
  have st: "step (SetActive b) s =
      (if isActive s = Some b then None
       else Some (activeEffect b
              (s\<lparr>isActive := Some b, activations := activations s + (if b then 1 else 0)\<rparr>)))"
    by (simp add: step_def)
  show ?thesis
    unfolding st guarded_not ..
qed

text \<open>What a step is, event by event; and invariants of runs.\<close>

lemma step_elim [consumes 1, case_names SetActive UserMedia DataAvailable RecorderError
    TracksEnded StrayStopped RecorderStop FetchSettled PlaySettled AudioEnded TimerFires
    Elapse CloseBanner]:
  assumes "step e s = Some s'"
  obtains
    b where "e = SetActive b" "isActive s \<noteq> Some b"
      "s' = activeEffect b (s\<lparr>isActive := Some b, activations := activations s + (if b then 1 else 0)\<rparr>)"
  | m r where "e = UserMedia m r" "0 < mediaRequests s"
      "s' = initializeRecording 5000 m r (s\<lparr>mediaRequests := mediaRequests s - 1\<rparr>)"
  | d where "e = DataAvailable d" "mediaRecorder s \<noteq> None" "s' = ondataavailable d s"
  | x where "e = RecorderError x" "mediaRecorder s = Some Recording" "s' = onerror x (browser_stop s)"
  | "e = TracksEnded" "audioStream s \<noteq> None" "s' = browser_stop (stop_tracks s)"
  | f where "e = StrayStopped f" "0 < strays s"
      "s' = (case f of None \<Rightarrow> s\<lparr>strays := strays s - 1, stopsQueued := stopsQueued s + 1\<rparr>
             | Some x \<Rightarrow> onerror x (s\<lparr>strays := strays s - 1, stopsQueued := stopsQueued s + 1\<rparr>))"
  | "e = RecorderStop" "0 < stopsQueued s"
      "s' = processRecording (s\<lparr>stopsQueued := stopsQueued s - 1\<rparr>)"
  | r where "e = FetchSettled r" "0 < fetchesPending s"
      "s' = fetch_settled r (s\<lparr>fetchesPending := fetchesPending s - 1\<rparr>)"
  | r where "e = PlaySettled r" "0 < playsPending s"
      "s' = play_settled r (s\<lparr>playsPending := playsPending s - 1\<rparr>)"
  | "e = AudioEnded" "playerPlaying s"
      "s' = (if onendedSet s then audio_onended s else s\<lparr>playerPlaying := False\<rparr>)"
  | i t where "e = TimerFires i" "pending i s = Some t" "earliest t s"
      "s' = run_callback (callback t) (dequeue t s)"
  | d where "e = Elapse d" "can_elapse d s" "s' = s\<lparr>clock := clock s + d\<rparr>"
  | "e = CloseBanner" "s' = clearError default_props s"
proof (cases e)
  case (SetActive b)
  with assms have "step (SetActive b) s = Some s'" by (simp only:)
  then show ?thesis using that(1) [OF SetActive] unfolding step_SetActive_eq by blast
next
  case (UserMedia m r)
  with assms have "0 < mediaRequests s \<and>
      initializeRecording 5000 m r (s\<lparr>mediaRequests := mediaRequests s - 1\<rparr>) = s'"
    by (simp add: step_def guarded)
  then show ?thesis using that(2) [OF UserMedia] by blast
next
  case (DataAvailable d)
  with assms have "mediaRecorder s \<noteq> None \<and> ondataavailable d s = s'"
    by (simp add: step_def guarded)
  then show ?thesis using that(3) [OF DataAvailable] by blast
next
  case (RecorderError x)
  with assms have "mediaRecorder s = Some Recording \<and> onerror x (browser_stop s) = s'"
    by (simp add: step_def guarded)
  then show ?thesis using that(4) [OF RecorderError] by blast
next
  case TracksEnded
  with assms have "audioStream s \<noteq> None \<and> browser_stop (stop_tracks s) = s'"
    by (simp add: step_def guarded)
  then show ?thesis using that(5) [OF TracksEnded] by blast
next
  case (StrayStopped f)
  with assms have "0 < strays s \<and>
      (case f of None \<Rightarrow> s\<lparr>strays := strays s - 1, stopsQueued := stopsQueued s + 1\<rparr>
       | Some x \<Rightarrow> onerror x (s\<lparr>strays := strays s - 1, stopsQueued := stopsQueued s + 1\<rparr>)) = s'"
    by (cases "0 < strays s"; cases f) (simp_all add: step_def Let_def)
  then show ?thesis using that(6) [OF StrayStopped] by blast
next
  case RecorderStop
  with assms have "0 < stopsQueued s \<and> processRecording (s\<lparr>stopsQueued := stopsQueued s - 1\<rparr>) = s'"
    by (simp add: step_def guarded)
  then show ?thesis using that(7) [OF RecorderStop] by blast
next
  case (FetchSettled r)
  with assms have "0 < fetchesPending s \<and> fetch_settled r (s\<lparr>fetchesPending := fetchesPending s - 1\<rparr>) = s'"
    by (simp add: step_def guarded)
  then show ?thesis using that(8) [OF FetchSettled] by blast
next
  case (PlaySettled r)
  with assms have "0 < playsPending s \<and> play_settled r (s\<lparr>playsPending := playsPending s - 1\<rparr>) = s'"
    by (simp add: step_def guarded)
  then show ?thesis using that(9) [OF PlaySettled] by blast
next
  case AudioEnded
  with assms have "playerPlaying s \<and>
      (if onendedSet s then audio_onended s else s\<lparr>playerPlaying := False\<rparr>) = s'"
    by (simp add: step_def guarded)
  then show ?thesis using that(10) [OF AudioEnded] by blast
next
  case (TimerFires i)
  with assms have "step (TimerFires i) s = Some s'" by (simp only:)
  then obtain t where "pending i s = Some t" "earliest t s" "run_callback (callback t) (dequeue t s) = s'"
    unfolding step_TimerFires_eq by blast
  then show ?thesis using that(11) [OF TimerFires] by blast
next
  case (Elapse d)
  with assms have "can_elapse d s \<and> s\<lparr>clock := clock s + d\<rparr> = s'"
    by (simp add: step_def guarded)
  then show ?thesis using that(12) [OF Elapse] by blast
next
  case CloseBanner
  with assms have "clearError default_props s = s'"
    by (simp add: step_def)
  then show ?thesis using that(13) [OF CloseBanner] by blast
qed

lemma run_induct_inv:
  assumes "run evs s = Some s'" "P s"
    and "\<And>e a b. P a \<Longrightarrow> step e a = Some b \<Longrightarrow> P b"
  shows "P s'"
  using assms(1,2)
proof (induction evs arbitrary: s)
  case Nil
  then show ?case by simp
next
  case (Cons e es)
  from Cons.prems(1) obtain s1 where 1: "step e s = Some s1" and 2: "run es s1 = Some s'"
    by (auto split: option.splits)
  from Cons.IH [OF 2 assms(3) [OF Cons.prems(2) 1]] show ?case .
qed

text \<open>Evaluating a concrete run: every handler and every primitive unfolded.\<close>

lemmas eval_defs = step_def http_init_def ws_init_def scenario_def pending_def earliest_def
  can_elapse_def dequeue_def run_callback_def activeEffect_def initializeRecording_def
  startRecording_def stopRecording_def ondataavailable_def onerror_def processRecording_def
  processing_failed_def fetch_settled_def play_settled_def audio_onended_def
  startContinuousMode_def updateProgress_def continuation_expired_def endContinuousMode_def
  cleanup_def stop_tracks_def prim_defs new_Blob_def blob_size_def formatErrorMessage_def
  no_error_def processRecording_ws_def processing_failed_ws_def sendAudioStream_def
  E_no_audio_def browser_stop_def

subsection \<open>The error hook: one error, hidden by whichever timer runs first\<close>

lemma clearError_error: "error (clearError props s) = no_error"
  by (simp add: clearError_def emit_def Let_def)

lemma clearError_timers: "timers (clearError props s) = timers s"
  by (simp add: clearError_def emit_def Let_def)

lemma hide_inv_step:
  assumes "hide_inv T u" "quiet e" "hook_step props e u = Some u'"
  shows "hide_inv T u'"
  using assms
  by (cases e) (auto simp: hide_inv_def quiet_def hook_step_def clearError_error can_elapse_def
      list_all_iff list_ex_iff split: option.splits if_splits)

lemma hide_inv_run:
  "hide_inv T u \<Longrightarrow> list_all quiet evs \<Longrightarrow> hook_run props evs u = Some u' \<Longrightarrow> hide_inv T u'"
proof (induction evs arbitrary: u)
  case Nil
  then show ?case by simp
next
  case (Cons e es)
  then show ?case by (auto split: option.splits dest: hide_inv_step)
qed

lemma hide_inv_set:
  "0 < autoHideDuration props \<Longrightarrow>
   hide_inv (clock s + timer_delay (autoHideDuration props)) (setErrorWithType props ty msg s)"
  by (simp add: hide_inv_def setErrorWithType_def setTimeout_def Let_def)

lemma pending_in_timers: "pending i u = Some t \<Longrightarrow> t \<in> set (timers u)"
  unfolding pending_def by (induction "timers u" arbitrary: u) (auto simp: find_Some_iff)

lemma shown_inv_step:
  assumes "shown_inv e ts u" "quiet ev" "hook_step props ev u = Some u'"
  shows "shown_inv e ts u'"
proof (cases ev)
  case (TimerDue i)
  with assms(3) obtain t where t: "pending i u = Some t" "earliest t u"
    and u': "u' = clearError props (dequeue t u)"
    by (auto simp: hook_step_def split: option.splits if_splits)
  have c: "clock u \<le> clock u'" "due t \<le> clock u'"
    by (simp_all add: u' clearError_def emit_def dequeue_def Let_def)
  from assms(1) show ?thesis
    unfolding shown_inv_def
  proof
    assume "error u = e \<and> timers u = ts"
    with pending_in_timers [OF t(1)] have "t \<in> set ts" by simp
    with c(2) show "(error u' = e \<and> timers u' = ts) \<or> list_ex (\<lambda>t. due t \<le> clock u') ts"
      by (auto simp: list_ex_iff)
  next
    assume "list_ex (\<lambda>t. due t \<le> clock u) ts"
    then obtain x where "x \<in> set ts" "due x \<le> clock u"
      by (auto simp: list_ex_iff)
    with c(1) have "list_ex (\<lambda>t. due t \<le> clock u') ts"
      unfolding list_ex_iff by (intro bexI [of _ x]) simp_all
    then show "(error u' = e \<and> timers u' = ts) \<or> list_ex (\<lambda>t. due t \<le> clock u') ts" ..
  qed
next
  case (Wait d)
  with assms(3) have u': "u' = u\<lparr>clock := clock u + d\<rparr>"
    by (auto simp: hook_step_def split: if_splits)
  from assms(1) show ?thesis
    unfolding shown_inv_def u' list_ex_iff by (fastforce intro: trans_le_add1)
qed (use assms(2) in \<open>simp_all add: quiet_def\<close>)

lemma shown_inv_run:
  "shown_inv e ts u \<Longrightarrow> list_all quiet evs \<Longrightarrow> hook_run props evs u = Some u' \<Longrightarrow>
   shown_inv e ts u'"
proof (induction evs arbitrary: u)
  case Nil
  then show ?case by simp
next
  case (Cons ev evs)
  then show ?case by (auto split: option.splits dest: shown_inv_step)
qed

lemma setErrorWithType_armed:
  "0 < autoHideDuration props \<Longrightarrow>
   setErrorWithType props ty msg s =
     s\<lparr>error := \<lparr>type = Some ty, message = Some msg\<rparr>,
       timers := timers s @
         [Timer (nextTimerId s) ErrorAutoHide (clock s + timer_delay (autoHideDuration props)) None],
       nextTimerId := nextTimerId s + 1\<rparr>"
  by (simp add: setErrorWithType_def setTimeout_def Let_def)

text \<open>
  C8, as the code has it. The hook holds one \<open>ErrorState\<close>: a fault overwrites it,
  whatever was shown before. A fault arms one more timer, for \<open>autoHideDuration\<close> as the
  platform reads it (\<open>timer_delay\<close>: the duration itself below \<open>2 ^ 31\<close> ms), and leaves
  every pending timer pending; clearing the error cancels none either. The timer that
  runs clears the error that is shown then. So, when no further fault is reported and
  the banner is not dismissed (\<open>quiet\<close>): the error is gone as soon as more than the
  delay has passed since it was set; and it is still shown as long as no timer that was
  pending when it was set is due, its own or one armed for an earlier fault. Without an
  earlier timer pending, the error is shown for exactly the delay.
\<close>

theorem error_replaced_and_hidden_within_duration:
  assumes "0 < autoHideDuration props"
      and "list_all quiet evs"
      and "hook_run props evs (setErrorWithType props ty msg s) = Some u"
  shows "error (setErrorWithType props ty msg s) = \<lparr>type = Some ty, message = Some msg\<rparr>
       \<and> timers (setErrorWithType props ty msg s)
           = timers s @ [Timer (nextTimerId s) ErrorAutoHide
                           (clock s + timer_delay (autoHideDuration props)) None]
       \<and> timers (clearError props s) = timers s
       \<and> (clock s + timer_delay (autoHideDuration props) < clock u \<longrightarrow> error u = no_error)
       \<and> (list_all (\<lambda>t. clock u < due t) (timers (setErrorWithType props ty msg s))
            \<longrightarrow> error u = \<lparr>type = Some ty, message = Some msg\<rparr>)
       \<and> (timers s = [] \<and> clock u < clock s + timer_delay (autoHideDuration props)
            \<longrightarrow> error u = \<lparr>type = Some ty, message = Some msg\<rparr>)
       \<and> (autoHideDuration props < 2147483648
            \<longrightarrow> timer_delay (autoHideDuration props) = nat (autoHideDuration props))"
proof -
  let ?s' = "setErrorWithType props ty msg s"
  let ?e = "\<lparr>type = Some ty, message = Some msg\<rparr>"
  note eq = setErrorWithType_armed [OF assms(1), of ty msg s]
  have 1: "error ?s' = ?e"
    and 2: "timers ?s' = timers s @ [Timer (nextTimerId s) ErrorAutoHide
                           (clock s + timer_delay (autoHideDuration props)) None]"
    by (simp_all add: eq)
  have "hide_inv (clock s + timer_delay (autoHideDuration props)) u"
    using hide_inv_run [OF hide_inv_set [OF assms(1)] assms(2) assms(3)] .
  then have 3: "clock s + timer_delay (autoHideDuration props) < clock u \<longrightarrow> error u = no_error"
    by (auto simp: hide_inv_def list_ex_iff)
  have "shown_inv ?e (timers ?s') ?s'"
    by (simp add: shown_inv_def 1)
  from shown_inv_run [OF this assms(2) assms(3)]
  have sh: "(error u = ?e \<and> timers u = timers ?s') \<or> list_ex (\<lambda>t. due t \<le> clock u) (timers ?s')"
    by (simp add: shown_inv_def)
  have 4: "list_all (\<lambda>t. clock u < due t) (timers ?s') \<longrightarrow> error u = ?e"
  proof
    assume "list_all (\<lambda>t. clock u < due t) (timers ?s')"
    then have "\<not> list_ex (\<lambda>t. due t \<le> clock u) (timers ?s')"
      by (auto simp: list_all_iff list_ex_iff)
    with sh show "error u = ?e" by blast
  qed
  have 5: "timers s = [] \<and> clock u < clock s + timer_delay (autoHideDuration props) \<longrightarrow> error u = ?e"
  proof
    assume "timers s = [] \<and> clock u < clock s + timer_delay (autoHideDuration props)"
    then have "list_all (\<lambda>t. clock u < due t) (timers ?s')"
      by (simp add: 2)
    with 4 show "error u = ?e" by blast
  qed
  have 6: "autoHideDuration props < 2147483648
            \<longrightarrow> timer_delay (autoHideDuration props) = nat (autoHideDuration props)"
    using assms(1) by (simp add: timer_delay_small)
  from 1 2 3 4 5 6 clearError_timers [of props s] show ?thesis by blast
qed

lemmas hook_eval = hook_step_def default_props_def hook_init_def setErrorWithType_def
  setTimeout_def can_elapse_def pending_def earliest_def dequeue_def clearError_def Let_def
  no_error_def

theorem error_replaced_and_hidden_within_duration_witness:
  "0 < autoHideDuration default_props
   \<and> list_all quiet [Wait 5000, TimerDue 1, Wait 1]
   \<and> hook_run default_props [Wait 5000, TimerDue 1, Wait 1]
        (setErrorWithType default_props recording ''mic'' hook_init)
       = Some \<lparr>clock = 5001, nextTimerId = 2, timers = [], log = [], error = no_error\<rparr>
   \<and> list_all quiet [Wait 4999]
   \<and> hook_run default_props [Wait 4999]
        (setErrorWithType default_props recording ''mic'' hook_init)
       = Some \<lparr>clock = 4999, nextTimerId = 2, timers = [Timer 1 ErrorAutoHide 5000 None], log = [],
               error = \<lparr>type = Some recording, message = Some ''mic''\<rparr>\<rparr>
   \<and> error (setErrorWithType default_props recording ''mic'' hook_init)
       = \<lparr>type = Some recording, message = Some ''mic''\<rparr>
   \<and> timers (setErrorWithType default_props recording ''mic'' hook_init)
       = [Timer 1 ErrorAutoHide 5000 None]
   \<and> timer_delay (autoHideDuration default_props) = 5000
   \<and> clock hook_init + timer_delay (autoHideDuration default_props) < 5001
   \<and> timers hook_init = []
   \<and> 4999 < clock hook_init + timer_delay (autoHideDuration default_props)"
proof -
  have h1: "0 < autoHideDuration default_props"
    by (simp add: default_props_def)
  have h2: "list_all quiet [Wait 5000, TimerDue 1, Wait 1]"
    by (simp add: quiet_def)
  have h3: "hook_run default_props [Wait 5000, TimerDue 1, Wait 1]
              (setErrorWithType default_props recording ''mic'' hook_init)
            = Some \<lparr>clock = 5001, nextTimerId = 2, timers = [], log = [], error = no_error\<rparr>"
    by (simp add: hook_eval)
  have h4: "clock hook_init + timer_delay (autoHideDuration default_props) < 5001"
    by (simp add: hook_init_def default_props_def)
  have h5: "list_all quiet [Wait 4999]"
    by (simp add: quiet_def)
  have h6: "hook_run default_props [Wait 4999]
        (setErrorWithType default_props recording ''mic'' hook_init)
       = Some \<lparr>clock = 4999, nextTimerId = 2, timers = [Timer 1 ErrorAutoHide 5000 None], log = [],
               error = \<lparr>type = Some recording, message = Some ''mic''\<rparr>\<rparr>"
    by (simp add: hook_eval)
  have h7: "timers hook_init = []" "4999 < clock hook_init + timer_delay (autoHideDuration default_props)"
    "timer_delay (autoHideDuration default_props) = 5000"
    by (simp_all add: hook_init_def default_props_def)
  from error_replaced_and_hidden_within_duration [OF h1 h2 h3]
    error_replaced_and_hidden_within_duration [OF h1 h5 h6] h1 h2 h3 h4 h5 h6 h7
  show ?thesis by (simp add: hook_init_def)
qed

text \<open>
  C8 as stated fails: a first fault at time 0 arms a timer for 5000; a second fault at
  time 3000 replaces the error; the first timer runs at 5000 and clears the second error
  2000 ms after it was set, 3000 ms before its own duration is over. And a duration of
  \<open>2 ^ 31\<close> ms is no duration at all: the timer is due at once.
\<close>

theorem error_cleared_by_earlier_timer:
  "map_option error
     (hook_run default_props [Fault recording ''first'', Wait 3000, Fault processing ''second'']
        hook_init)
     = Some \<lparr>type = Some processing, message = Some ''second''\<rparr>
   \<and> map_option clock
     (hook_run default_props [Fault recording ''first'', Wait 3000, Fault processing ''second'']
        hook_init)
     = Some 3000
   \<and> map_option error
     (hook_run default_props
        [Fault recording ''first'', Wait 3000, Fault processing ''second'', TimerDue 1] hook_init)
     = Some no_error
   \<and> map_option clock
     (hook_run default_props
        [Fault recording ''first'', Wait 3000, Fault processing ''second'', TimerDue 1] hook_init)
     = Some 5000
   \<and> (5000::nat) < 3000 + timer_delay (autoHideDuration default_props)
   \<and> timer_delay 2147483648 = 0"
  by (simp add: hook_eval) (simp add: timer_delay_def ToInt32_def)

subsection \<open>The utterance buffer\<close>

lemma deliver_chunks:
  "audioChunks (deliver ds s) = audioChunks s @ filter (\<lambda>d. 0 < blob_size d) ds"
  by (induction ds arbitrary: s) (auto simp: ondataavailable_def)

lemma blob_size_new_Blob: "blob_size (new_Blob parts ty) = sum_list (map blob_size parts)"
  by (induction parts) (auto simp: blob_size_def new_Blob_def)

lemma startRecording_chunks:
  "mediaRecorder s \<noteq> None \<Longrightarrow> audioChunks (startRecording c r s) = []"
  by (cases "mediaRecorder s"; cases r)
     (auto simp: startRecording_def prim_defs)

text \<open>
  C10. \<^verbatim>\<open>startRecording\<close> empties the buffer and \<^verbatim>\<open>ondataavailable\<close> appends a chunk
  only when its size is positive (the same code in both revisions). So, whatever chunks
  \<open>ds\<close> the recorder delivers after the start, every chunk in the buffer has positive
  size, and the assembled utterance has size 0 exactly when every delivered chunk was
  empty.
\<close>

theorem buffer_holds_only_nonempty_chunks:
  assumes "mediaRecorder s \<noteq> None"
  shows "(\<forall>c \<in> set (audioChunks (deliver ds (startRecording ceiling refused s))). 0 < blob_size c)
       \<and> (blob_size (new_Blob (audioChunks (deliver ds (startRecording ceiling refused s))) ty) = 0
            \<longleftrightarrow> (\<forall>d \<in> set ds. blob_size d = 0))"
  using assms
  by (auto simp: deliver_chunks startRecording_chunks blob_size_new_Blob)

theorem buffer_holds_only_nonempty_chunks_witness:
  "mediaRecorder (http_init\<lparr>mediaRecorder := Some Inactive\<rparr>) \<noteq> None
   \<and> audioChunks (deliver [Blob [] [], Blob [1, 2] [], Blob [] []]
        (startRecording 5000 None (http_init\<lparr>mediaRecorder := Some Inactive\<rparr>)))
       = [Blob [1, 2] []]
   \<and> list_all (\<lambda>c. 0 < blob_size c) (audioChunks (deliver [Blob [] [], Blob [1, 2] [], Blob [] []]
        (startRecording 5000 None (http_init\<lparr>mediaRecorder := Some Inactive\<rparr>))))
   \<and> blob_size (new_Blob (audioChunks (deliver [Blob [] [], Blob [1, 2] [], Blob [] []]
        (startRecording 5000 None (http_init\<lparr>mediaRecorder := Some Inactive\<rparr>)))) ''audio/wav'') \<noteq> 0
   \<and> \<not> list_all (\<lambda>d. blob_size d = 0) [Blob [] [], Blob [1, 2] [], Blob [] []]"
proof -
  have h: "mediaRecorder (http_init\<lparr>mediaRecorder := Some Inactive\<rparr>) \<noteq> None"
    by simp
  have c: "audioChunks (deliver [Blob [] [], Blob [1, 2] [], Blob [] []]
        (startRecording 5000 None (http_init\<lparr>mediaRecorder := Some Inactive\<rparr>)))
       = [Blob [1, 2] []]"
    by (simp add: deliver_chunks startRecording_chunks blob_size_def del: deliver.simps)
  have n: "\<not> list_all (\<lambda>d. blob_size d = 0) [Blob [] [], Blob [1, 2] [], Blob [] []]"
    by (simp add: blob_size_def)
  from buffer_holds_only_nonempty_chunks [OF h, of "[Blob [] [], Blob [1, 2] [], Blob [] []]" 5000 None "''audio/wav''"]
  have "list_all (\<lambda>c. 0 < blob_size c) (audioChunks (deliver [Blob [] [], Blob [1, 2] [], Blob [] []]
        (startRecording 5000 None (http_init\<lparr>mediaRecorder := Some Inactive\<rparr>))))"
    and "blob_size (new_Blob (audioChunks (deliver [Blob [] [], Blob [1, 2] [], Blob [] []]
        (startRecording 5000 None (http_init\<lparr>mediaRecorder := Some Inactive\<rparr>)))) ''audio/wav'') \<noteq> 0"
    using n by (simp_all add: list_all_iff del: deliver.simps)
  with h c n show ?thesis by (simp del: deliver.simps)
qed

subsection \<open>The phase flags\<close>

lemma stopRecording_flags:
  "mediaRecorder s \<noteq> None \<Longrightarrow> \<not> isRecording (stopRecording s)"
  "isProcessing (stopRecording s) = isProcessing s"
  "isPlaying (stopRecording s) = isPlaying s"
  by (cases "mediaRecorder s"; simp add: stopRecording_def Let_def)+

lemma processRecording_flags:
  "blob_size (new_Blob (audioChunks s) ''audio/wav'') \<noteq> 0 \<Longrightarrow> isProcessing (processRecording s)"
  "isRecording (processRecording s) = isRecording s"
  "isPlaying (processRecording s) = isPlaying s"
  by (simp_all add: processRecording_def processing_failed_def prim_defs)

text \<open>
  C4 at the failing inputs. \<^verbatim>\<open>stopRecording\<close> resets \<open>isRecording\<close> before the recorder's
  \<^verbatim>\<open>stop\<close> event leads to \<^verbatim>\<open>processRecording\<close> (\<open>stopRecording_flags\<close>), but
  \<^verbatim>\<open>processRecording\<close> itself sets \<open>isProcessing\<close> and leaves \<open>isRecording\<close> and \<open>isPlaying\<close>
  as they are (\<open>processRecording_flags\<close>). When the browser stops the recorder on its
  own (every track of the microphone has ended, or the recorder failed), nothing has
  reset \<open>isRecording\<close>: it is set together with \<open>isProcessing\<close>, then together with
  \<open>isPlaying\<close>. And when the
  recorder is deactivated and activated again while the response plays,
  \<^verbatim>\<open>startRecording\<close> sets \<open>isRecording\<close> while \<open>isPlaying\<close> is set.
\<close>

theorem recording_flag_survives_unrequested_stop:
  "map_option (\<lambda>s. (isRecording s, isProcessing s, isPlaying s))
     (run [SetActive True, UserMedia (Inr [Live]) None, DataAvailable (Blob [1, 2, 3] []),
           TracksEnded, RecorderStop] http_init)
     = Some (True, True, False)
   \<and> map_option active_flags
     (run [SetActive True, UserMedia (Inr [Live]) None, DataAvailable (Blob [1, 2, 3] []),
           TracksEnded, RecorderStop] http_init)
     = Some 2
   \<and> map_option (\<lambda>s. (isRecording s, isProcessing s, isPlaying s))
     (run [SetActive True, UserMedia (Inr [Live]) None, DataAvailable (Blob [1, 2, 3] []),
           RecorderError (Error ''device''), RecorderStop,
           FetchSettled (Response True ''OK'' (Inr (Blob [4, 5] ''audio/wav'')))] http_init)
     = Some (True, False, True)
   \<and> map_option active_flags
     (run [SetActive True, UserMedia (Inr [Live]) None, DataAvailable (Blob [1, 2, 3] []),
           RecorderError (Error ''device''), RecorderStop,
           FetchSettled (Response True ''OK'' (Inr (Blob [4, 5] ''audio/wav'')))] http_init)
     = Some 2
   \<and> map_option (\<lambda>s. (isRecording s, isProcessing s, isPlaying s))
     (run (scenario @ [SetActive False, SetActive True, UserMedia (Inr [Live]) None]) http_init)
     = Some (True, False, True)
   \<and> map_option active_flags
     (run (scenario @ [SetActive False, SetActive True, UserMedia (Inr [Live]) None]) http_init)
     = Some 2"
  by (simp add: eval_defs active_flags_def)

subsection \<open>The empty utterance\<close>

lemma processRecording_empty:
  assumes "blob_size (new_Blob (audioChunks s) ''audio/wav'') = 0"
  shows "processRecording s =
     s\<lparr>isProcessing := False, awaiting := Finished,
       error := \<lparr>type = Some processing, message = Some (Error.message E_no_audio)\<rparr>,
       timers := timers s @ [Timer (nextTimerId s) ErrorAutoHide (clock s + 5000) None],
       nextTimerId := nextTimerId s + 1\<rparr>"
  using assms
  by (simp add: processRecording_def processing_failed_def prim_defs formatErrorMessage_def)

lemma processRecording_ws_empty:
  assumes "blob_size (new_Blob (audioChunks w) ''audio/wav'') = 0"
  shows "processRecording_ws w =
     w\<lparr>isProcessing := False,
       error := \<lparr>type = Some processing, message = Some (Error.message E_no_audio)\<rparr>,
       timers := timers w @ [Timer (nextTimerId w) ErrorAutoHide (clock w + 5000) None],
       nextTimerId := nextTimerId w + 1\<rparr>"
  using assms
  by (simp add: processRecording_ws_def processing_failed_ws_def prim_defs formatErrorMessage_def)

lemma nonempty_utterance_sent:
  assumes "blob_size (new_Blob (audioChunks s) ''audio/wav'') \<noteq> 0"
  shows "log (processRecording s) = log s @ [Fetch (new_Blob (audioChunks s) ''audio/wav'')]"
  using assms
  by (simp add: processRecording_def prim_defs)

lemma nonempty_utterance_sent_ws:
  assumes "blob_size (new_Blob (audioChunks w) ''audio/wav'') \<noteq> 0" "wsRef w = Some True" "readyState w = OPEN"
  shows "log (processRecording_ws w) = log w @ [WsSend (new_Blob (audioChunks w) ''audio/wav'')]"
  using assms
  by (simp add: processRecording_ws_def sendAudioStream_def prim_defs)

text \<open>
  C1. When the assembled utterance has size 0, \<^verbatim>\<open>processRecording\<close> throws before the
  request: the log of effects is unchanged (no \<open>Fetch\<close> in the HTTP revision, no
  \<open>WsSend\<close> and no call of the service in the WebSocket revision), the function is
  finished rather than suspended at the exchange, and the error shown is the one of the
  empty utterance. (\<open>nonempty_utterance_sent\<close> has the other branch: a non-empty
  utterance is sent.)
\<close>

theorem empty_utterance_never_sent:
  assumes "blob_size (new_Blob (audioChunks s) ''audio/wav'') = 0"
      and "blob_size (new_Blob (audioChunks w) ''audio/wav'') = 0"
  shows "log (processRecording s) = log s
       \<and> awaiting (processRecording s) = Finished
       \<and> message (error (processRecording s)) = Some (Error.message E_no_audio)
       \<and> log (processRecording_ws w) = log w
       \<and> message (error (processRecording_ws w)) = Some (Error.message E_no_audio)"
  by (simp add: processRecording_empty [OF assms(1)] processRecording_ws_empty [OF assms(2)])

theorem empty_utterance_never_sent_witness:
  "blob_size (new_Blob (audioChunks http_init) ''audio/wav'') = 0
   \<and> blob_size (new_Blob (audioChunks ws_init) ''audio/wav'') = 0
   \<and> log (processRecording http_init) = []
   \<and> log (processRecording_ws ws_init) = []
   \<and> awaiting (processRecording http_init) = Finished"
proof -
  have h1: "blob_size (new_Blob (audioChunks http_init) ''audio/wav'') = 0"
    by (simp add: http_init_def new_Blob_def blob_size_def)
  have h2: "blob_size (new_Blob (audioChunks ws_init) ''audio/wav'') = 0"
    by (simp add: ws_init_def new_Blob_def blob_size_def)
  have "log http_init = []" "log ws_init = []"
    by (simp_all add: http_init_def ws_init_def)
  with empty_utterance_never_sent [OF h1 h2] h1 h2 show ?thesis by simp
qed

lemma requested_stop_resets_isRecording:
  "mediaRecorder s \<noteq> None \<Longrightarrow>
   \<not> isRecording (stopRecording s) \<and> audioChunks (stopRecording s) = audioChunks s"
  by (cases "mediaRecorder s") (auto simp: stopRecording_def Let_def)

lemma unrequested_stop_keeps_isRecording:
  "isRecording (browser_stop s) = isRecording s"
  "isRecording (onerror e s) = isRecording s"
  "isRecording (stop_tracks s) = isRecording s"
  by (simp_all add: browser_stop_def onerror_def stop_tracks_def prim_defs)




subsection \<open>The empty response\<close>

text \<open>
  The HTTP revision: a response whose body has size 0 is a processing fault; nothing is
  played and \<open>isPlaying\<close> is not set.
\<close>

lemma http_empty_response_is_fault:
  assumes "blob_size b = 0"
  shows "log (fetch_settled (Response True st (Inr b)) s) = log s
       \<and> type (error (fetch_settled (Response True st (Inr b)) s)) = Some processing
       \<and> isPlaying (fetch_settled (Response True st (Inr b)) s) = isPlaying s
       \<and> awaiting (fetch_settled (Response True st (Inr b)) s) = Finished"
  using assms
  by (simp add: fetch_settled_def processing_failed_def prim_defs)

text \<open>
  C5 at the failing input. The WebSocket service has no such check: for a message whose
  data is empty it builds a blob of size 0, makes it the source of the audio element and
  calls \<^verbatim>\<open>play()\<close>.
\<close>

theorem websocket_empty_payload_is_played:
  "log (lastMessage_effect (Some []) None s) = log s @ [Play (Blob [] ''audio/wav'')]
   \<and> audioPlayerSrc (lastMessage_effect (Some []) None s) = Some (Blob [] ''audio/wav'')
   \<and> blob_size (Blob [] ''audio/wav'') = 0"
  by (simp add: lastMessage_effect_def new_Blob_def emit_def blob_size_def Let_def)

subsection \<open>The ceiling timer and the deactivation stop the same way\<close>

lemma agree_stops:
  "agree False (run_callback RecordingCeiling (dequeue t s))
               (activeEffect False (s\<lparr>isActive := Some False\<rparr>))"
  by (cases "mediaRecorder s")
     (simp_all add: agree_def run_callback_def activeEffect_def stopRecording_def dequeue_def
        cleanup_def stop_tracks_def prim_defs)

lemma agree_weaken: "agree True a b \<Longrightarrow> agree e a b"
  by (simp add: agree_def)

lemma agree_DataAvailable:
  "agree e a b \<Longrightarrow> rel_option (agree e) (step (DataAvailable d) a) (step (DataAvailable d) b)"
  by (simp add: agree_def step_def ondataavailable_def)

lemma agree_RecorderStop:
  "agree e a b \<Longrightarrow> rel_option (agree True) (step RecorderStop a) (step RecorderStop b)"
  by (simp add: agree_def step_def processRecording_def processing_failed_def prim_defs)

lemma agree_FetchSettled:
  "agree True a b \<Longrightarrow> rel_option (agree True) (step (FetchSettled r) a) (step (FetchSettled r) b)"
  by (simp add: agree_def step_def fetch_settled_def processing_failed_def prim_defs
      split: fetch_result.splits sum.splits)

lemma agree_PlaySettled:
  "agree True a b \<Longrightarrow> rel_option (agree True) (step (PlaySettled r) a) (step (PlaySettled r) b)"
  by (cases r) (simp_all add: agree_def step_def play_settled_def prim_defs)

lemma agree_AudioEnded:
  "agree True a b \<Longrightarrow> rel_option (agree True) (step AudioEnded a) (step AudioEnded b)"
  by (simp add: agree_def step_def audio_onended_def startContinuousMode_def prim_defs)

lemma agree_step:
  "agree True a b \<Longrightarrow> downstream ev \<Longrightarrow> rel_option (agree True) (step ev a) (step ev b)"
  by (cases ev)
     (simp_all add: downstream_def agree_DataAvailable agree_RecorderStop agree_FetchSettled
        agree_PlaySettled agree_AudioEnded)

lemma agree_run:
  "agree True a b \<Longrightarrow> list_all downstream evs \<Longrightarrow> rel_option (agree True) (run evs a) (run evs b)"
proof (induction evs arbitrary: a b)
  case Nil
  then show ?case by simp
next
  case (Cons ev evs)
  from Cons.prems have "rel_option (agree True) (step ev a) (step ev b)"
    by (simp add: agree_step)
  then show ?case
    using Cons.IH Cons.prems(2) by (cases "step ev a"; cases "step ev b") simp_all
qed

lemma agree_deliver:
  "agree e a b \<Longrightarrow> rel_option (agree e) (run (map DataAvailable ds) a) (run (map DataAvailable ds) b)"
proof (induction ds arbitrary: a b)
  case Nil
  then show ?case by simp
next
  case (Cons d ds)
  from Cons.prems have "rel_option (agree e) (step (DataAvailable d) a) (step (DataAvailable d) b)"
    by (rule agree_DataAvailable)
  then show ?case
    using Cons.IH by (cases "step (DataAvailable d) a"; cases "step (DataAvailable d) b") simp_all
qed

lemma agree_view: "agree True a b \<Longrightarrow> pipeline_view a = pipeline_view b"
  by (simp add: agree_def pipeline_view_def)

lemma rel_option_view:
  "rel_option (agree True) x y \<Longrightarrow> map_option pipeline_view x = map_option pipeline_view y"
  by (cases x; cases y) (simp_all add: agree_view)

lemma ceiling_timer_step:
  assumes "pending i s = Some t" "earliest t s" "callback t = RecordingCeiling"
  shows "step (TimerFires i) s = Some (stopRecording (dequeue t s))"
  using assms by (simp add: step_TimerFires_eq run_callback_def)

lemma deactivation_step:
  assumes "isActive s \<noteq> Some False"
  shows "step (SetActive False) s = Some (cleanup (stopRecording (s\<lparr>isActive := Some False\<rparr>)))"
  using assms by (simp add: step_def activeEffect_def)

text \<open>
  C6. The callback of the ceiling timer is \<^verbatim>\<open>stopRecording\<close>; the only other caller of
  \<^verbatim>\<open>stopRecording\<close> is the effect that runs when \<^verbatim>\<open>isActive\<close> becomes false, which calls
  \<^verbatim>\<open>cleanup\<close> after it (\<open>ceiling_timer_step\<close>, \<open>deactivation_step\<close>). From the same state
  \<open>s\<close>, the two stops are followed by the same pipeline: whatever chunks \<open>ds\<close> the recorder
  still delivers, and whatever the network and the audio element answer afterwards
  (\<open>evs\<close>), both reach the recorder's stop event and \<^verbatim>\<open>processRecording\<close> with the same
  buffer, and the flags, the request sent, the response played and the error shown are
  the same at the end, or the events cannot occur in either.
\<close>

theorem timeout_stop_same_as_manual_stop:
  assumes "list_all downstream evs"
  shows "map_option pipeline_view
           (run (map DataAvailable ds @ RecorderStop # evs)
              (run_callback RecordingCeiling (dequeue t s)))
       = map_option pipeline_view
           (run (map DataAvailable ds @ RecorderStop # evs)
              (activeEffect False (s\<lparr>isActive := Some False\<rparr>)))"
proof -
  let ?a = "run_callback RecordingCeiling (dequeue t s)"
  let ?b = "activeEffect False (s\<lparr>isActive := Some False\<rparr>)"
  have 1: "rel_option (agree False) (run (map DataAvailable ds) ?a) (run (map DataAvailable ds) ?b)"
    using agree_stops by (rule agree_deliver)
  have "rel_option (agree True) (run (map DataAvailable ds @ RecorderStop # evs) ?a)
          (run (map DataAvailable ds @ RecorderStop # evs) ?b)"
  proof (cases "run (map DataAvailable ds) ?a"; cases "run (map DataAvailable ds) ?b")
    fix a' b'
    assume a': "run (map DataAvailable ds) ?a = Some a'" and b': "run (map DataAvailable ds) ?b = Some b'"
    with 1 have ag: "agree False a' b'" by simp
    have 2: "rel_option (agree True) (step RecorderStop a') (step RecorderStop b')"
      using ag by (rule agree_RecorderStop)
    show ?thesis
    proof (cases "step RecorderStop a'"; cases "step RecorderStop b'")
      fix a'' b''
      assume a'': "step RecorderStop a' = Some a''" and b'': "step RecorderStop b' = Some b''"
      with 2 have "agree True a'' b''" by simp
      from agree_run [OF this assms] show ?thesis
        by (simp add: run_append a' b' a'' b'')
    qed (use 2 in \<open>simp_all add: run_append a' b'\<close>)
  qed (use 1 in \<open>simp_all add: run_append\<close>)
  then show ?thesis by (rule rel_option_view)
qed

theorem timeout_stop_same_as_manual_stop_witness:
  "list_all downstream
     [FetchSettled (Response True ''OK'' (Inr (Blob [4, 5] ''audio/wav''))), PlaySettled None, AudioEnded]
   \<and> map_option pipeline_view
       (run (map DataAvailable [Blob [1, 2, 3] []] @ RecorderStop #
             [FetchSettled (Response True ''OK'' (Inr (Blob [4, 5] ''audio/wav''))), PlaySettled None,
              AudioEnded])
          (activeEffect False
             ((the (run [SetActive True, UserMedia (Inr [Live]) None] http_init))
                \<lparr>isActive := Some False\<rparr>)))
     = Some ((False, False, False), (True, 100), [Blob [1, 2, 3] []],
             (Some (Blob [4, 5] ''audio/wav''), False), Finished,
             [Fetch (Blob [1, 2, 3] ''audio/wav''), Play (Blob [4, 5] ''audio/wav'')], no_error)"
proof -
  have h: "list_all downstream
     [FetchSettled (Response True ''OK'' (Inr (Blob [4, 5] ''audio/wav''))), PlaySettled None, AudioEnded]"
    by (simp add: downstream_def)
  have a: "map_option pipeline_view
       (run (map DataAvailable [Blob [1, 2, 3] []] @ RecorderStop #
             [FetchSettled (Response True ''OK'' (Inr (Blob [4, 5] ''audio/wav''))), PlaySettled None,
              AudioEnded])
          (run_callback RecordingCeiling
             (dequeue (Timer 1 RecordingCeiling 5000 None)
                (the (run [SetActive True, UserMedia (Inr [Live]) None] http_init)))))
     = Some ((False, False, False), (True, 100), [Blob [1, 2, 3] []],
             (Some (Blob [4, 5] ''audio/wav''), False), Finished,
             [Fetch (Blob [1, 2, 3] ''audio/wav''), Play (Blob [4, 5] ''audio/wav'')], no_error)"
    by (simp add: eval_defs pipeline_view_def)
  from timeout_stop_same_as_manual_stop [OF h, of "[Blob [1, 2, 3] []]"
      "Timer 1 RecordingCeiling 5000 None"
      "the (run [SetActive True, UserMedia (Inr [Live]) None] http_init)"] a h
  show ?thesis by simp
qed

subsection \<open>The continuation window\<close>

lemmas window_defs = window_def audio_onended_def startContinuousMode_def

lemmas fire_defs = step_TimerFires_eq pending_def earliest_def dequeue_def run_callback_def
  updateProgress_def continuation_expired_def endContinuousMode_def

lemma window_0: "timers s = [] \<Longrightarrow> window s 0 = audio_onended s"
  by (simp add: window_defs prim_defs)

lemma window_tick:
  assumes "0 < nextTimerId s" "k < 99"
  shows "step (TimerFires (nextTimerId s)) (window s k) = Some (window s (Suc k))"
  using assms by (simp add: fire_defs window_defs prim_defs)

lemma window_ticks:
  assumes "timers s = []" "0 < nextTimerId s"
  shows "k \<le> 99 \<Longrightarrow> run (replicate k (TimerFires (nextTimerId s))) (audio_onended s) = Some (window s k)"
proof (induction k)
  case 0
  then show ?case by (simp add: window_0 [OF assms(1)])
next
  case (Suc k)
  then have "run (replicate k (TimerFires (nextTimerId s))) (audio_onended s) = Some (window s k)"
    and "k < 99" by simp_all
  moreover have "replicate (Suc k) (TimerFires (nextTimerId s))
      = replicate k (TimerFires (nextTimerId s)) @ [TimerFires (nextTimerId s)]"
    by (simp add: replicate_append_same)
  ultimately show ?case
    using window_tick [OF assms(2), of k] by (simp add: run_append del: replicate.simps)
qed

lemma window_timeout_blocked:
  assumes "k < 99"
  shows "step (TimerFires (Suc (nextTimerId s))) (window s k) = None"
proof -
  have "step (TimerFires (Suc (nextTimerId s))) (window s k) \<noteq> Some s'" for s'
    using assms by (simp add: fire_defs window_defs prim_defs)
  then show ?thesis by (cases "step (TimerFires (Suc (nextTimerId s))) (window s k)") auto
qed

lemma window_last_tick:
  assumes "0 < nextTimerId s"
  shows "step (TimerFires (nextTimerId s)) (window s 99) = Some (window_closed s 1 0)"
  using assms by (simp add: fire_defs window_defs window_closed_def prim_defs)

lemma window_timeout_first:
  assumes "0 < nextTimerId s"
  shows "step (TimerFires (Suc (nextTimerId s))) (window s 99) = Some (window_closed s 1 1\<lparr>timers := []\<rparr>)"
  using assms by (simp add: fire_defs window_defs window_closed_def prim_defs)

lemma window_timeout_second:
  assumes "0 < nextTimerId s"
  shows "step (TimerFires (Suc (nextTimerId s))) (window_closed s 1 0) = Some (window_closed s 2 0)"
  using assms by (simp add: fire_defs window_defs window_closed_def prim_defs numeral_2_eq_2)

lemma window_full:
  assumes "timers s = []" "0 < nextTimerId s"
  shows "run (replicate 99 (TimerFires (nextTimerId s)) @ [TimerFires (nextTimerId s)])
           (audio_onended s) = Some (window_closed s 1 0)"
    and "run (replicate 99 (TimerFires (nextTimerId s)) @ [TimerFires (Suc (nextTimerId s))])
           (audio_onended s) = Some (window_closed s 1 1\<lparr>timers := []\<rparr>)"
    and "run (replicate 99 (TimerFires (nextTimerId s))
              @ [TimerFires (nextTimerId s), TimerFires (Suc (nextTimerId s))])
           (audio_onended s) = Some (window_closed s 2 0)"
  using window_ticks [OF assms, of 99] window_last_tick [OF assms(2)]
    window_timeout_first [OF assms(2)] window_timeout_second [OF assms(2)]
  by (simp_all add: run_append del: replicate.simps)

text \<open>
  The countdown when nothing else happens. The \<^verbatim>\<open>onended\<close> handler opens the window
  in a state \<open>s\<close> with no other timer pending. The progress shown starts at 100. The
  interval runs every 150 ms and each run lowers the progress by one: after \<open>k\<close> runs it
  is \<open>100 - k\<close> and \<open>150 * k\<close> ms have passed, and the timeout of the window cannot run
  before the ninety-ninth. Then the interval and the timeout are both due, 15000 ms after
  the window opened, and whichever runs closes the window at that instant with the
  progress at 0, \<open>continuousMode\<close> reset and \<^verbatim>\<open>onComplete\<close> called.
\<close>

lemma undisturbed_countdown:
  assumes "timers s = []" and "0 < nextTimerId s"
  shows "timeoutProgress (audio_onended s) = 100 \<and> continuousMode (audio_onended s)
       \<and> (\<forall>k\<le>99. \<exists>u. run (replicate k (TimerFires (nextTimerId s))) (audio_onended s) = Some u
              \<and> timeoutProgress u = 100 - int k \<and> continuousMode u
              \<and> clock u = clock s + 150 * k
              \<and> (k < 99 \<longrightarrow> step (TimerFires (Suc (nextTimerId s))) u = None))
       \<and> (\<forall>c \<in> {TimerFires (nextTimerId s), TimerFires (Suc (nextTimerId s))}.
            \<exists>v. run (replicate 99 (TimerFires (nextTimerId s)) @ [c]) (audio_onended s) = Some v
              \<and> timeoutProgress v = 0 \<and> \<not> continuousMode v
              \<and> clock v = clock s + 15000
              \<and> log v = log s @ [OnComplete])"
proof -
  have 1: "timeoutProgress (audio_onended s) = 100 \<and> continuousMode (audio_onended s)"
    by (simp add: window_defs prim_defs)
  have 2: "\<exists>u. run (replicate k (TimerFires (nextTimerId s))) (audio_onended s) = Some u
              \<and> timeoutProgress u = 100 - int k \<and> continuousMode u
              \<and> clock u = clock s + 150 * k
              \<and> (k < 99 \<longrightarrow> step (TimerFires (Suc (nextTimerId s))) u = None)" if "k \<le> 99" for k
  proof -
    have "timeoutProgress (window s k) = 100 - int k" "continuousMode (window s k)"
      "clock (window s k) = clock s + 150 * k"
      by (simp_all add: window_defs prim_defs)
    then show ?thesis
      using window_ticks [OF assms that] window_timeout_blocked [of k s] by simp
  qed
  have 3: "timeoutProgress (window_closed s 1 p) = 0" "\<not> continuousMode (window_closed s 1 p)"
    "clock (window_closed s 1 p) = clock s + 15000"
    "log (window_closed s 1 p) = log s @ [OnComplete]" for p
    by (simp_all add: window_closed_def)
  from window_full(1,2) [OF assms] 3 [of 0] 3 [of 1]
  have 4: "\<forall>c \<in> {TimerFires (nextTimerId s), TimerFires (Suc (nextTimerId s))}.
            \<exists>v. run (replicate 99 (TimerFires (nextTimerId s)) @ [c]) (audio_onended s) = Some v
              \<and> timeoutProgress v = 0 \<and> \<not> continuousMode v
              \<and> clock v = clock s + 15000
              \<and> log v = log s @ [OnComplete]"
    by (simp del: replicate.simps)
  from 1 2 4 show ?thesis by blast
qed

lemma scenario_state:
  "run scenario http_init \<noteq> None"
  "timers (the (run scenario http_init)) = []"
  "nextTimerId (the (run scenario http_init)) = 2"
  "clock (the (run scenario http_init)) = 5000"
  "awaiting (the (run scenario http_init)) = AwaitEnded"
  "playerPlaying (the (run scenario http_init))"
  "onendedSet (the (run scenario http_init))"
  "windows (the (run scenario http_init)) = 0"
  "activations (the (run scenario http_init)) = 1"
  "log (the (run scenario http_init)) = [Fetch (Blob [1, 2, 3] ''audio/wav''), Play (Blob [4, 5] ''audio/wav'')]"
  by (simp_all add: eval_defs)

text \<open>
  C2 at the failing input. When the hundredth run of the interval comes before the
  timeout (both are due at the same instant), \<^verbatim>\<open>updateProgress\<close> clears the interval and
  calls \<^verbatim>\<open>endContinuousMode\<close>, but leaves the timeout of the window pending; the timeout
  then runs and calls \<^verbatim>\<open>endContinuousMode\<close> again: \<^verbatim>\<open>onComplete\<close> is called twice in one
  session.
\<close>

theorem completion_called_twice:
  "map_option log
     (run (scenario @ AudioEnded # replicate 100 (TimerFires 2) @ [TimerFires 3]) http_init)
   = Some [Fetch (Blob [1, 2, 3] ''audio/wav''), Play (Blob [4, 5] ''audio/wav''),
           OnComplete, OnComplete]"
proof -
  from scenario_state(1) obtain s where s: "run scenario http_init = Some s"
    by blast
  with scenario_state have st: "timers s = []" "nextTimerId s = 2" "playerPlaying s" "onendedSet s"
    "log s = [Fetch (Blob [1, 2, 3] ''audio/wav''), Play (Blob [4, 5] ''audio/wav'')]"
    by simp_all
  have e: "step AudioEnded s = Some (audio_onended s)"
    by (simp add: step_def st)
  have h2: "0 < nextTimerId s" by (simp add: st)
  have "(100::nat) = Suc 99" by simp
  then have "replicate 100 (TimerFires 2) = replicate (Suc 99) (TimerFires 2)"
    by (simp only:)
  also have "\<dots> = replicate 99 (TimerFires 2) @ [TimerFires 2]"
    by (simp only: replicate_Suc replicate_append_same)
  finally have r: "replicate 100 (TimerFires 2) @ [TimerFires 3]
         = replicate 99 (TimerFires 2) @ [TimerFires 2, TimerFires 3]"
    by (simp del: replicate.simps)
  have w: "run (replicate 99 (TimerFires 2) @ [TimerFires 2, TimerFires 3]) (audio_onended s)
      = Some (window_closed s 2 0)"
    using window_full(3) [OF st(1) h2] by (simp add: st del: replicate.simps)
  have a: "scenario @ AudioEnded # replicate 100 (TimerFires 2) @ [TimerFires 3]
      = scenario @ [AudioEnded] @ (replicate 99 (TimerFires 2) @ [TimerFires 2, TimerFires 3])"
    using r by (simp del: replicate.simps)
  have "run (scenario @ AudioEnded # replicate 100 (TimerFires 2) @ [TimerFires 3]) http_init
      = Some (window_closed s 2 0)"
    unfolding a
    by (simp add: run_append [of scenario] run_append [of "[AudioEnded]"] s e w
        del: replicate.simps append.simps)
  then show ?thesis
    by (simp add: window_closed_def st numeral_2_eq_2)
qed

end
